theory Spec2Isabelle
  imports Complex_Main "HOL-Library.Word" "HOL-Library.Sublist" "HOL-Library.AList"
    "HOL-Library.Log_Nat"
begin

section \<open>JavaScript values\<close>

subsection \<open>Strings\<close>

text \<open>
  JavaScript strings are sequences of 16-bit code units; \<open>split('')\<close> and
  \<open>charCodeAt(0)\<close> in miner.js work on exactly these units. \<open>js\<close> writes an ASCII
  literal as such a string.
\<close>

type_synonym jsstring = "16 word list"

definition js :: "string \<Rightarrow> jsstring" where
  "js s = map (\<lambda>c. of_nat (of_char c :: nat)) s"

subsection \<open>Numbers\<close>

text \<open>
  A JavaScript number is an IEEE 754 double: not-a-number, the two infinities, the
  negative zero, or a finite value (\<open>Num 0\<close> is the positive zero). A finite double is
  a rational \<open>m * 2 ^ e\<close> with \<open>\<bar>m\<bar> < 2 ^ 53\<close> and \<open>- 1074 \<le> e \<le> 971\<close>; the
  operations below return such values, computed exactly and then rounded to the nearest
  double, ties to the even mantissa.
\<close>

datatype jsnum = NaN | PosInf | NegInf | NegZero | Num rat

text \<open>The exponent \<open>k\<close> with \<open>2 ^ k \<le> a < 2 ^ (k + 1)\<close>, for \<open>a > 0\<close>.\<close>

definition floorlog2 :: "rat \<Rightarrow> int" where
  "floorlog2 a = (if 1 \<le> a then bitlen \<lfloor>a\<rfloor> - 1 else - bitlen (\<lceil>1 / a\<rceil> - 1))"

definition roundHalfEven :: "rat \<Rightarrow> int" where
  "roundHalfEven y =
     (let f = \<lfloor>y\<rfloor>; d = y - of_int f
      in if d < 1 / 2 then f else if 1 / 2 < d then f + 1 else if even f then f else f + 1)"

text \<open>
  Rounding of an exact result: the last place of the result has the weight \<open>2 ^ e\<close>, 52
  places below the leading one and never below \<open>2 ^ - 1074\<close>; a result that rounds up to
  \<open>2 ^ 1024\<close> is infinite, and one that rounds to nothing is a zero of its sign.
\<close>

definition roundD :: "rat \<Rightarrow> jsnum" where
  "roundD x =
     (if x = 0 then Num 0
      else
        (let a = \<bar>x\<bar>;
             e = max (floorlog2 a - 52) (- 1074);
             n = roundHalfEven (a / 2 powi e);
             r = of_int n * 2 powi e
         in if 2 ^ 1024 \<le> r then (if x < 0 then NegInf else PosInf)
            else if n = 0 then (if x < 0 then NegZero else Num 0)
            else Num (if x < 0 then - r else r)))"

text \<open>\<open>x + y\<close>, \<open>- x\<close>, \<open>x - y\<close> and \<open>x < y\<close> on numbers (\<open>x > y\<close> is \<open>y < x\<close>).\<close>

fun jsAdd :: "jsnum \<Rightarrow> jsnum \<Rightarrow> jsnum" where
  "jsAdd NaN y = NaN"
| "jsAdd x NaN = NaN"
| "jsAdd PosInf NegInf = NaN"
| "jsAdd NegInf PosInf = NaN"
| "jsAdd PosInf y = PosInf"
| "jsAdd NegInf y = NegInf"
| "jsAdd x PosInf = PosInf"
| "jsAdd x NegInf = NegInf"
| "jsAdd NegZero y = y"
| "jsAdd x NegZero = x"
| "jsAdd (Num p) (Num q) = roundD (p + q)"

fun jsNeg :: "jsnum \<Rightarrow> jsnum" where
  "jsNeg NaN = NaN"
| "jsNeg PosInf = NegInf"
| "jsNeg NegInf = PosInf"
| "jsNeg NegZero = Num 0"
| "jsNeg (Num q) = (if q = 0 then NegZero else Num (- q))"

definition jsSub :: "jsnum \<Rightarrow> jsnum \<Rightarrow> jsnum" where
  "jsSub x y = jsAdd x (jsNeg y)"

text \<open>The value of a finite number (both zeros have the value 0).\<close>

fun toRat :: "jsnum \<Rightarrow> rat option" where
  "toRat (Num q) = Some q"
| "toRat NegZero = Some 0"
| "toRat x = None"

fun finite_value :: "jsnum \<Rightarrow> rat" where
  "finite_value (Num q) = q"
| "finite_value x = 0"

fun jsLess :: "jsnum \<Rightarrow> jsnum \<Rightarrow> bool" where
  "jsLess NaN y = False"
| "jsLess x NaN = False"
| "jsLess PosInf y = False"
| "jsLess x NegInf = False"
| "jsLess NegInf y = True"
| "jsLess x PosInf = True"
| "jsLess x y = (finite_value x < finite_value y)"

text \<open>An integer literal, and the numbers that are integers and not negative, with
  their values.\<close>

definition jsInt :: "int \<Rightarrow> jsnum" where
  "jsInt n = Num (of_int n)"

text \<open>\<open>2 ^ 53\<close>: up to it every integer is a double.\<close>

definition two53 :: int where
  "two53 = 2 ^ 53"

definition natAmount :: "jsnum \<Rightarrow> bool" where
  "natAmount x = (case toRat x of None \<Rightarrow> False | Some q \<Rightarrow> 0 \<le> q \<and> q = of_int \<lfloor>q\<rfloor>)"

definition intOf :: "jsnum \<Rightarrow> int" where
  "intOf x = (case toRat x of None \<Rightarrow> 0 | Some q \<Rightarrow> \<lfloor>q\<rfloor>)"

text \<open>The sum of a list of numbers as the code adds them: from 0, left to right, every
  addition rounded.\<close>

definition jsSum :: "jsnum list \<Rightarrow> jsnum" where
  "jsSum xs = foldl jsAdd (jsInt 0) xs"

section \<open>Data model\<close>

text \<open>An output \<open>{amount, address}\<close>. (\<open>output\<close> is a reserved word of Isabelle, so the
  record takes the name the wallet gives its parameter, \<open>utxo\<close>.)\<close>

record utxo =
  amount :: jsnum
  address :: jsstring

text \<open>The result of \<open>keypair()\<close>: \<open>{public, private}\<close>.\<close>

record keypair =
  public' :: jsstring
  private' :: jsstring

text \<open>
  A coin object of the wallet, \<open>{output, txID, outputIndex}\<close>. \<open>spendUTXOs\<close> later
  sets the properties \<open>pubKey\<close> and \<open>sig\<close> of the same object and deletes \<open>output\<close>, so
  these three properties are optional (\<open>None\<close> is absent or \<open>undefined\<close>).
\<close>

record coin =
  output' :: "utxo option"
  txID :: jsstring
  outputIndex :: nat
  pubKey :: "jsstring option"
  sig :: "jsstring option"

text \<open>An input of a transaction, \<open>{txID, outputIndex, pubKey, sig}\<close>.\<close>

record input =
  txID :: jsstring
  outputIndex :: nat
  pubKey :: jsstring
  sig :: jsstring

text \<open>
  A transaction keeps the array of outputs it is given, and the array holds the caller's
  output objects: \<open>outputs\<close> is the list of references in the slots of the array, and
  \<open>objs\<close> is the store that gives every reference its object. No method writes to an
  input, so inputs are values.
\<close>

type_synonym ref = nat

record transaction =
  inputs :: "input list"
  outputs :: "ref list"
  id' :: jsstring
  objs :: "ref \<Rightarrow> utxo"

text \<open>
  The UTXO map handed to \<open>isValid\<close>: transaction id to array of outputs, where a slot may
  be empty (out of range, or cleared once spent). \<open>isValid\<close> only reads it. The map
  holds the object's own properties: at a name that the object only inherits,
  \<open>utxos[txID]\<close> is a function or \<open>Object.prototype\<close>, whose property at a
  numeric \<open>outputIndex\<close> is \<open>undefined\<close>, and \<open>isValid\<close> sets \<open>valid = false\<close>
  as it does for a name that is absent.
\<close>

type_synonym utxos = "jsstring \<rightharpoonup> utxo option list"

text \<open>
  Every exception of the sources is a plain \<open>Error\<close> told apart by its message; the
  constructors name them as the specification does. \<open>TypeError\<close> is what the JavaScript
  runtime raises on reading a property of \<open>undefined\<close>.
\<close>

datatype error =
  WrongTxID | AddressMismatch | BadSignature | InsufficientFunds | UnknownAddress
  | StringLengthMismatch | TypeError

text \<open>
  Coin objects live in a store, and the queue \<open>coins\<close> holds references to them:
  \<open>indexOf\<close> in \<open>spendUTXOs\<close> compares references, and two coins with equal
  contents are still two objects.

  \<open>this.addresses\<close> is a plain object used as a dictionary. \<open>addresses\<close> holds its own
  properties in the order of their creation; \<open>proto\<close> is the key pair that an assignment
  to the name \<open>__proto__\<close> has made its prototype, if any (the prototype is
  \<open>Object.prototype\<close> before that, and the key pair's own prototype after).
  \<open>eligibility_address\<close> is undefined until \<open>saveElibilityProof\<close> runs.
\<close>

record wallet =
  coins :: "ref list"
  addresses :: "(jsstring \<times> keypair) list"
  proto :: "keypair option"
  eligibility_address :: "jsstring option"
  heap :: "ref \<rightharpoonup> coin"
  nextRef :: ref

text \<open>What \<open>this.addresses[k]\<close> can be: \<open>undefined\<close>, a key pair, a string (a property
  of a key pair that is the prototype), or a function or object of \<open>Object.prototype\<close>.\<close>

datatype jsval = Undefined | KeyPair keypair | Str jsstring | Obj

text \<open>
  Modelled from the spec: the class Block (block.js is not among the sources). The record
  holds the attributes that miner.js reads or writes: \<open>prevBlockHash\<close>, \<open>chainLength\<close>,
  \<open>timestamp\<close>, \<open>rewardAddress\<close> and \<open>proof\<close>.
\<close>

record block =
  prevBlockHash :: jsstring
  chainLength :: int
  timestamp :: int
  rewardAddress :: "jsstring option"
  proof' :: int

text \<open>
  The collaborators that are not among the sources, taken as parameters:
  utils.js (\<open>hash\<close> composed with \<open>JSON.stringify\<close> on a transaction's content,
  \<open>calcAddress\<close>, \<open>sign\<close>, whose key is \<open>undefined\<close> when the wallet has none, and
  \<open>verifySignature\<close>), block.js (\<open>hashVal\<close>,
  \<open>verifyProof\<close>, \<open>deserialize\<close>) and client.js (\<open>postTransaction\<close>, which spends
  from the wallet and broadcasts a transaction; the handler of that broadcast,
  \<open>addTransaction\<close>, changes the contents of a block and none of the attributes in the
  record \<open>block\<close>, so of the state modelled here \<open>postTransaction\<close> changes the
  wallet; it may raise, InsufficientFunds for one).
\<close>

record env =
  hash :: "input list \<Rightarrow> utxo list \<Rightarrow> jsstring"
  calcAddress :: "jsstring \<Rightarrow> jsstring"
  sign :: "jsstring option \<Rightarrow> utxo \<Rightarrow> jsstring"
  verifySignature :: "jsstring \<Rightarrow> utxo \<Rightarrow> jsstring \<Rightarrow> bool"
  hashVal :: "block \<Rightarrow> jsstring"
  verifyProof :: "block \<Rightarrow> bool"
  deserialize :: "jsstring \<Rightarrow> block"
  postTransaction :: "wallet \<Rightarrow> utxo list \<Rightarrow> error option \<times> wallet"

section \<open>wallet.js\<close>

definition Wallet :: wallet where
  "Wallet = \<lparr>coins = [], addresses = [], proto = None, eligibility_address = None,
              heap = Map.empty, nextRef = 0\<rparr>"

text \<open>
  The names that every plain object inherits from \<open>Object.prototype\<close> as functions;
  \<open>__proto__\<close> is its accessor, which reads and sets the prototype.
\<close>

definition objectPrototype :: "jsstring list" where
  "objectPrototype =
     map js [''constructor'', ''__defineGetter__'', ''__defineSetter__'', ''hasOwnProperty'',
             ''__lookupGetter__'', ''__lookupSetter__'', ''isPrototypeOf'',
             ''propertyIsEnumerable'', ''toString'', ''valueOf'', ''toLocaleString'']"

text \<open>
  \<open>this.addresses[k]\<close>: an own property first, then the prototype chain. With a key
  pair as the prototype, \<open>__proto__\<close> is that key pair and \<open>public\<close> and \<open>private\<close>
  are its strings.
\<close>

definition lookup :: "(jsstring \<times> keypair) list \<Rightarrow> keypair option \<Rightarrow> jsstring \<Rightarrow> jsval" where
  "lookup own pr k =
     (case map_of own k of
        Some kp \<Rightarrow> KeyPair kp
      | None \<Rightarrow>
          (case pr of
             None \<Rightarrow> if k = js ''__proto__'' \<or> k \<in> set objectPrototype then Obj else Undefined
           | Some kp \<Rightarrow>
               if k = js ''__proto__'' then KeyPair kp
               else if k = js ''public'' then Str (public' kp)
               else if k = js ''private'' then Str (private' kp)
               else if k \<in> set objectPrototype then Obj
               else Undefined))"

definition getProp :: "wallet \<Rightarrow> jsstring \<Rightarrow> jsval" where
  "getProp w k = lookup (addresses w) (proto w) k"

text \<open>
  \<open>this.addresses[k] = kp\<close>: the name \<open>__proto__\<close> sets the prototype; any other name
  becomes, or stays, an own property (in its place in the order of creation).
\<close>

definition setProp :: "wallet \<Rightarrow> jsstring \<Rightarrow> keypair \<Rightarrow> wallet" where
  "setProp w k kp =
     (if k = js ''__proto__'' then w\<lparr>proto := Some kp\<rparr>
      else w\<lparr>addresses := AList.update k kp (addresses w)\<rparr>)"

text \<open>\<open>v.public\<close> and \<open>v.private\<close> of a value that is not \<open>undefined\<close>: the strings of
  a key pair, \<open>undefined\<close> for a string, a function or \<open>Object.prototype\<close>.\<close>

fun publicOf :: "jsval \<Rightarrow> jsstring option" where
  "publicOf (KeyPair kp) = Some (public' kp)"
| "publicOf v = None"

fun privateOf :: "jsval \<Rightarrow> jsstring option" where
  "privateOf (KeyPair kp) = Some (private' kp)"
| "privateOf v = None"

text \<open>\<open>!!v\<close>: \<open>undefined\<close> and the empty string are falsy.\<close>

fun truthy :: "jsval \<Rightarrow> bool" where
  "truthy Undefined = False"
| "truthy (Str s) = (s \<noteq> [])"
| "truthy v = True"

text \<open>\<open>get balance()\<close>: the reduce over the queue, from 0; reading \<open>output.amount\<close> of a
  coin whose \<open>output\<close> was deleted raises.\<close>

fun reduce_balance :: "(ref \<rightharpoonup> coin) \<Rightarrow> ref list \<Rightarrow> jsnum \<Rightarrow> error + jsnum" where
  "reduce_balance h [] acc = Inr acc"
| "reduce_balance h (r # rs) acc =
     (case h r of
        None \<Rightarrow> Inl TypeError
      | Some c \<Rightarrow>
          (case output' c of
             None \<Rightarrow> Inl TypeError
           | Some out \<Rightarrow> reduce_balance h rs (jsAdd acc (amount out))))"

definition balance :: "wallet \<Rightarrow> error + jsnum" where
  "balance w = reduce_balance (heap w) (coins w) (jsInt 0)"

text \<open>\<open>addUTXO\<close>: the throw comes before any write; otherwise a fresh coin object is
  allocated and \<open>unshift\<close> puts its reference at index 0. The coin keeps the output
  it is given; no method of the wallet writes to an output, so across the wallet's own
  calls a coin's output is a fixed value.\<close>

definition addUTXO :: "wallet \<Rightarrow> utxo \<Rightarrow> jsstring \<Rightarrow> nat \<Rightarrow> error + wallet" where
  "addUTXO w utxo txID' outputIndex' =
     (if getProp w (address utxo) = Undefined then Inl UnknownAddress
      else Inr (w\<lparr>coins := nextRef w # coins w,
                  heap := (heap w)(nextRef w \<mapsto>
                    \<lparr>output' = Some utxo, coin.txID = txID', coin.outputIndex = outputIndex',
                     coin.pubKey = None, coin.sig = None\<rparr>),
                  nextRef := Suc (nextRef w)\<rparr>))"

text \<open>
  The \<open>for\<close> loop of \<open>spendUTXOs\<close>, with \<open>A\<close> for \<open>this.addresses[...]\<close>. It does not
  change the array \<open>this.coins\<close>, so it is a recursion over the queue from index 0; it
  writes to the coin objects. The result is the exception raised (if any), the store, the
  remaining \<open>amount\<close> and \<open>needed\<close>. Reading \<open>c.output.address\<close> of a coin without
  \<open>output\<close>, or \<open>.public\<close> of \<open>undefined\<close>, raises a TypeError before the coin is
  written to; a value that is not a key pair gives \<open>undefined\<close> for both keys. (A
  reference with no object does not exist in JavaScript; the store answers it like a coin
  without \<open>output\<close>.)
\<close>

fun spendLoop ::
  "env \<Rightarrow> (jsstring \<Rightarrow> jsval) \<Rightarrow> ref list \<Rightarrow> (ref \<rightharpoonup> coin) \<Rightarrow> jsnum \<Rightarrow> ref list
     \<Rightarrow> error option \<times> (ref \<rightharpoonup> coin) \<times> jsnum \<times> ref list" where
  "spendLoop E A [] h amt needed = (None, h, amt, needed)"
| "spendLoop E A (r # rs) h amt needed =
     (if jsLess (jsInt 0) amt then
        (case h r of
           None \<Rightarrow> (Some TypeError, h, amt, needed)
         | Some c \<Rightarrow>
             (case output' c of
                None \<Rightarrow> (Some TypeError, h, amt, needed)
              | Some out \<Rightarrow>
                  (if A (address out) = Undefined then (Some TypeError, h, amt, needed)
                   else
                     spendLoop E A rs
                       (h(r \<mapsto> c\<lparr>coin.pubKey := publicOf (A (address out)),
                                 coin.sig := Some (sign E (privateOf (A (address out))) out),
                                 output' := None\<rparr>))
                       (jsSub amt (amount out)) (needed @ [r]))))
      else (None, h, amt, needed))"

text \<open>\<open>Array.prototype.indexOf\<close> on references (\<open>-1\<close> when absent) and
  \<open>splice(start, 1)\<close>, whose negative \<open>start\<close> counts from the end.\<close>

fun indexOf :: "ref list \<Rightarrow> ref \<Rightarrow> int" where
  "indexOf [] e = - 1"
| "indexOf (x # xs) e =
     (if x = e then 0 else (let i = indexOf xs e in if i < 0 then - 1 else i + 1))"

definition splice1 :: "'a list \<Rightarrow> int \<Rightarrow> 'a list" where
  "splice1 xs start =
     (let n = int (length xs);
          s = (if start < 0 then max (n + start) 0 else min start n)
      in take (nat s) xs @ drop (Suc (nat s)) xs)"

fun removeNeeded :: "ref list \<Rightarrow> ref list \<Rightarrow> ref list" where
  "removeNeeded cs [] = cs"
| "removeNeeded cs (element # es) = removeNeeded (splice1 cs (indexOf cs element)) es"

text \<open>
  \<open>spendUTXOs(amount)\<close>: the outcome (an exception, or \<open>{inputs, changeAmt}\<close> with
  \<open>inputs\<close> the references in \<open>needed\<close>) and the wallet afterwards.
\<close>

definition spendUTXOs :: "env \<Rightarrow> wallet \<Rightarrow> jsnum \<Rightarrow> (error + ref list \<times> jsnum) \<times> wallet" where
  "spendUTXOs E w amt =
     (case balance w of
        Inl e \<Rightarrow> (Inl e, w)
      | Inr bal \<Rightarrow>
          if jsLess bal amt then (Inl InsufficientFunds, w)
          else
            (case spendLoop E (getProp w) (coins w) (heap w) amt [] of
               (Some e, h, amt', needed) \<Rightarrow> (Inl e, w\<lparr>heap := h\<rparr>)
             | (None, h, amt', needed) \<Rightarrow>
                 (Inr (needed, jsNeg amt'),
                  w\<lparr>heap := h, coins := removeNeeded (coins w) needed\<rparr>)))"

text \<open>\<open>spendUTXOsFully(amount)\<close>: the same statements, without \<open>changeAmt\<close> in the
  result.\<close>

definition spendUTXOsFully :: "env \<Rightarrow> wallet \<Rightarrow> jsnum \<Rightarrow> (error + ref list) \<times> wallet" where
  "spendUTXOsFully E w amt =
     (case balance w of
        Inl e \<Rightarrow> (Inl e, w)
      | Inr bal \<Rightarrow>
          if jsLess bal amt then (Inl InsufficientFunds, w)
          else
            (case spendLoop E (getProp w) (coins w) (heap w) amt [] of
               (Some e, h, amt', needed) \<Rightarrow> (Inl e, w\<lparr>heap := h\<rparr>)
             | (None, h, amt', needed) \<Rightarrow>
                 (Inr needed, w\<lparr>heap := h, coins := removeNeeded (coins w) needed\<rparr>)))"

text \<open>\<open>makeAddress\<close>, given the key pair that \<open>keypair()\<close> generates.\<close>

definition makeAddress :: "env \<Rightarrow> keypair \<Rightarrow> wallet \<Rightarrow> jsstring \<times> wallet" where
  "makeAddress E kp w =
     (let addr = calcAddress E (public' kp) in (addr, setProp w addr kp))"

definition getEligibilityAddress :: "wallet \<Rightarrow> jsstring option" where
  "getEligibilityAddress w = eligibility_address w"

text \<open>
  \<open>Object.keys\<close>: the own names that are array indices (canonical decimal numerals
  below \<open>2 ^ 32 - 1\<close>) in ascending numeric order, then the other names in the order of
  their creation.
\<close>

definition digitsValue :: "jsstring \<Rightarrow> nat" where
  "digitsValue s = foldl (\<lambda>v c. 10 * v + (unat c - 48)) 0 s"

definition arrayIndex :: "jsstring \<Rightarrow> nat option" where
  "arrayIndex s =
     (case s of
        [] \<Rightarrow> None
      | c # cs \<Rightarrow>
          if list_all (\<lambda>d. 48 \<le> d \<and> d \<le> 57) s \<and> (cs = [] \<or> c \<noteq> 48)
             \<and> digitsValue s < 2 ^ 32 - 1
          then Some (digitsValue s) else None)"

definition objectKeys :: "(jsstring \<times> keypair) list \<Rightarrow> jsstring list" where
  "objectKeys A =
     (let ks = map fst A
      in sort_key (\<lambda>k. case arrayIndex k of None \<Rightarrow> 0 | Some i \<Rightarrow> i)
           (filter (\<lambda>k. arrayIndex k \<noteq> None) ks)
         @ filter (\<lambda>k. arrayIndex k = None) ks)"

text \<open>\<open>saveElibilityProof\<close>: the loop overwrites \<open>total_add\<close> for every key.\<close>

definition saveElibilityProof :: "wallet \<Rightarrow> wallet" where
  "saveElibilityProof w =
     w\<lparr>eligibility_address :=
         Some (foldl (\<lambda>total_add k.
                        case map_of (addresses w) k of
                          None \<Rightarrow> total_add
                        | Some kp \<Rightarrow> public' kp)
                 [] (objectKeys (addresses w)))\<rparr>"

text \<open>\<open>hasKey(address)\<close>: \<open>!!this.addresses[address]\<close>.\<close>

definition hasKey :: "wallet \<Rightarrow> jsstring \<Rightarrow> bool" where
  "hasKey w a = truthy (getProp w a)"

text \<open>
  The wallets that the public interface builds: the queue holds distinct references to
  allocated coins that still have their \<open>output\<close>, each for an address at which
  \<open>this.addresses\<close> is not \<open>undefined\<close>.
\<close>

definition coin_ok :: "wallet \<Rightarrow> ref \<Rightarrow> bool" where
  "coin_ok w r =
     (r < nextRef w \<and>
      (case heap w r of
         None \<Rightarrow> False
       | Some c \<Rightarrow>
           (case output' c of
              None \<Rightarrow> False
            | Some out \<Rightarrow> getProp w (address out) \<noteq> Undefined)))"

definition wallet_ok :: "wallet \<Rightarrow> bool" where
  "wallet_ok w = (distinct (coins w) \<and> list_all (coin_ok w) (coins w))"

text \<open>The amount a queued coin stands for.\<close>

definition amountOf :: "(ref \<rightharpoonup> coin) \<Rightarrow> ref \<Rightarrow> jsnum" where
  "amountOf h r =
     (case h r of
        None \<Rightarrow> jsInt 0
      | Some c \<Rightarrow> (case output' c of None \<Rightarrow> jsInt 0 | Some out \<Rightarrow> amount out))"


text \<open>What the loop of \<open>spendUTXOs\<close> leaves of a coin it has consumed.\<close>

definition signedCoin :: "env \<Rightarrow> (jsstring \<Rightarrow> jsval) \<Rightarrow> coin \<Rightarrow> coin option" where
  "signedCoin E A c =
     (case output' c of
        None \<Rightarrow> None
      | Some out \<Rightarrow>
          Some (c\<lparr>coin.pubKey := publicOf (A (address out)),
                  coin.sig := Some (sign E (privateOf (A (address out))) out),
                  output' := None\<rparr>))"

text \<open>The store once the coins \<open>used\<close> have been consumed.\<close>

definition signedHeap ::
  "env \<Rightarrow> (jsstring \<Rightarrow> jsval) \<Rightarrow> ref list \<Rightarrow> (ref \<rightharpoonup> coin) \<Rightarrow> (ref \<rightharpoonup> coin)" where
  "signedHeap E A used h =
     (\<lambda>r. if r \<in> set used then Option.bind (h r) (signedCoin E A) else h r)"

text \<open>A coin the loop can sign: it has its \<open>output\<close>, and \<open>this.addresses\<close> is not
  \<open>undefined\<close> at its address.\<close>

definition spendable :: "(jsstring \<Rightarrow> jsval) \<Rightarrow> (ref \<rightharpoonup> coin) \<Rightarrow> ref \<Rightarrow> bool" where
  "spendable A h r =
     (case h r of
        None \<Rightarrow> False
      | Some c \<Rightarrow>
          (case output' c of
             None \<Rightarrow> False
           | Some out \<Rightarrow> A (address out) \<noteq> Undefined))"

text \<open>The amount that is left of a request after the amounts \<open>as\<close> have been taken
  from it one by one, as the loop does.\<close>

definition remaining :: "jsnum \<Rightarrow> jsnum list \<Rightarrow> jsnum" where
  "remaining amt as = foldl jsSub amt as"

section \<open>transaction.js\<close>

text \<open>The constructor, given the store \<open>objects\<close> of the output objects: \<open>id\<close> is computed
  once, from the inputs and the contents of the outputs at that time (\<open>inputs\<close> is
  \<open>[]\<close> when absent).\<close>

definition Transaction :: "env \<Rightarrow> (ref \<Rightarrow> utxo) \<Rightarrow> ref list \<Rightarrow> input list \<Rightarrow> transaction" where
  "Transaction E objects outs ins =
     \<lparr>inputs = ins, outputs = outs, id' = hash E ins (map objects outs), objs = objects\<rparr>"

text \<open>The amounts in the output slots, in order.\<close>

definition outAmounts :: "transaction \<Rightarrow> jsnum list" where
  "outAmounts t = map (\<lambda>r. amount (objs t r)) (outputs t)"

text \<open>
  \<open>spendOutput(input)\<close>. When \<open>outputIndex\<close> is past the end of \<open>outputs\<close>,
  \<open>this.outputs[outputIndex]\<close> is \<open>undefined\<close> and the destructuring
  \<open>let {amount, address} = output\<close> raises a TypeError. The method writes nothing.
\<close>

definition spendOutput :: "env \<Rightarrow> transaction \<Rightarrow> input \<Rightarrow> error + jsnum" where
  "spendOutput E t inp =
     (if txID inp \<noteq> id' t then Inl WrongTxID
      else if length (outputs t) \<le> outputIndex inp then Inl TypeError
      else
        (let out = objs t (outputs t ! outputIndex inp) in
         if calcAddress E (pubKey inp) \<noteq> address out then Inl AddressMismatch
         else if \<not> verifySignature E (pubKey inp) out (sig inp) then Inl BadSignature
         else Inr (amount out)))"

text \<open>
  \<open>isValid(utxos)\<close>. The callback of \<open>this.inputs.forEach\<close> updates \<open>inSum\<close> and
  \<open>valid\<close>; every property it reads is guarded by the two tests before it, so nothing
  in the method raises.
\<close>

fun checkInput :: "env \<Rightarrow> utxos \<Rightarrow> jsnum \<times> bool \<Rightarrow> input \<Rightarrow> jsnum \<times> bool" where
  "checkInput E utxos (inSum, valid) txIn =
     (case utxos (txID txIn) of
        None \<Rightarrow> (inSum, False)
      | Some utxo \<Rightarrow>
          (if length utxo \<le> outputIndex txIn then (inSum, False)
           else
             (case utxo ! outputIndex txIn of
                None \<Rightarrow> (inSum, False)
              | Some prevOut \<Rightarrow>
                  if address prevOut = calcAddress E (pubKey txIn)
                     \<and> verifySignature E (pubKey txIn) prevOut (sig txIn)
                  then (jsAdd inSum (amount prevOut), valid)
                  else (inSum, False))))"

definition isValid :: "env \<Rightarrow> transaction \<Rightarrow> utxos \<Rightarrow> bool" where
  "isValid E t utxos =
     (case foldl (checkInput E utxos) (jsInt 0, True) (inputs t) of
        (inSum, valid) \<Rightarrow>
          if \<not> valid then False
          else
            (let outSum = foldl (\<lambda>outSum txOut. jsAdd outSum (amount (objs t txOut)))
                            (jsInt 0) (outputs t)
             in if jsLess inSum outSum then False else True))"

text \<open>\<open>addFee(amount)\<close>: \<open>this.outputs[0].amount += amount\<close> writes to the object in
  slot 0; a TypeError when there is no first output.\<close>

definition addFee :: "transaction \<Rightarrow> jsnum \<Rightarrow> error + transaction" where
  "addFee t k =
     (case outputs t of
        [] \<Rightarrow> Inl TypeError
      | r # rest \<Rightarrow>
          Inr (t\<lparr>objs := (objs t)(r := (objs t r)\<lparr>amount := jsAdd (amount (objs t r)) k\<rparr>)\<rparr>))"

definition totalOutput :: "transaction \<Rightarrow> jsnum" where
  "totalOutput t = foldl (\<lambda>acc out. jsAdd acc (amount (objs t out))) (jsInt 0) (outputs t)"

text \<open>The calls a transaction object can receive, and the object after a call (a call
  that raises leaves it as it was).\<close>

datatype tx_call = SpendOutput input | IsValid utxos | AddFee jsnum | TotalOutput

fun tx_step :: "transaction \<Rightarrow> tx_call \<Rightarrow> transaction" where
  "tx_step t (SpendOutput inp) = t"
| "tx_step t (IsValid utxos) = t"
| "tx_step t (AddFee k) = (case addFee t k of Inl e \<Rightarrow> t | Inr t' \<Rightarrow> t')"
| "tx_step t TotalOutput = t"

text \<open>The output an input refers to in a UTXO map, \<open>utxos[txID][outputIndex]\<close>, when
  it is there; whether an input passes the checks of \<open>isValid\<close>; and the amount it
  brings.\<close>

definition referenced :: "utxos \<Rightarrow> input \<Rightarrow> utxo option" where
  "referenced utxos txIn =
     (case utxos (txID txIn) of
        None \<Rightarrow> None
      | Some utxo \<Rightarrow> if outputIndex txIn < length utxo then utxo ! outputIndex txIn else None)"

definition verified :: "env \<Rightarrow> utxos \<Rightarrow> input \<Rightarrow> bool" where
  "verified E utxos txIn =
     (case referenced utxos txIn of
        None \<Rightarrow> False
      | Some prevOut \<Rightarrow>
          address prevOut = calcAddress E (pubKey txIn)
          \<and> verifySignature E (pubKey txIn) prevOut (sig txIn))"

definition refAmount :: "utxos \<Rightarrow> input \<Rightarrow> jsnum" where
  "refAmount utxos txIn =
     (case referenced utxos txIn of None \<Rightarrow> jsInt 0 | Some prevOut \<Rightarrow> amount prevOut)"

section \<open>miner.js\<close>

definition MINT_ELEGIBILITY_DIFFICULTY :: int where
  "MINT_ELEGIBILITY_DIFFICULTY = 2"

definition TIME_UNTIL_ELIGIBILITY_DECREASE :: int where
  "TIME_UNTIL_ELIGIBILITY_DECREASE = 2000"

text \<open>\<open>Number.prototype.toString(2)\<close> on a code unit: the binary digits from the most
  significant one, with no leading zero; \<open>"0"\<close> for zero.\<close>

function toString2 :: "nat \<Rightarrow> string" where
  "toString2 n =
     (if n < 2 then [if n = 0 then CHR ''0'' else CHR ''1'']
      else toString2 (n div 2) @ [if n mod 2 = 0 then CHR ''0'' else CHR ''1''])"
  by pat_completeness auto
termination
  by (relation "measure id") auto

declare toString2.simps [simp del]

definition text2Binary :: "jsstring \<Rightarrow> string" where
  "text2Binary s = take 16 (concat (map (\<lambda>char. toString2 (unat char)) s))"

text \<open>The loop of \<open>countMatchingBits\<close>, from index \<open>i\<close> with the total so far.\<close>

function countLoop :: "string \<Rightarrow> string \<Rightarrow> nat \<Rightarrow> int \<Rightarrow> int" where
  "countLoop string1 string2 i total' =
     (if i < length string1 then
        (if string1 ! i = string2 ! i then countLoop string1 string2 (Suc i) (total' + 1)
         else total')
      else total')"
  by pat_completeness auto
termination
  by (relation "measure (\<lambda>(string1, string2, i, total'). length string1 - i)") auto

declare countLoop.simps [simp del]

definition countMatchingBits :: "string \<Rightarrow> string \<Rightarrow> error + int" where
  "countMatchingBits string1 string2 =
     (if length string1 \<noteq> length string2 then Inl StringLengthMismatch
      else Inr (countLoop string1 string2 0 0))"

text \<open>
  The state of a miner. \<open>oid\<close> is the identity of the object (\<open>this !== miner\<close> compares
  references); \<open>timeouts\<close> holds the pending \<open>setTimeout\<close> calls of \<open>startNewSearch\<close>,
  each with its \<open>reuseRewardAddress\<close>.
\<close>

record miner =
  oid :: nat
  name :: jsstring
  wallet :: wallet
  currentBlock :: block
  previousBlocks :: "jsstring \<rightharpoonup> block"
  rewardAddress :: "jsstring option"
  mint_elegibility_diff_dyn :: int
  shouldStartNewBlock :: bool
  shouldMine :: bool
  timeouts :: "bool list"

text \<open>\<open>isEligibileToMint(miner, b, target)\<close>; the eligibility key of a wallet that never
  ran \<open>saveElibilityProof\<close> is \<open>undefined\<close>, and \<open>text2Binary\<close> raises on it.\<close>

definition isEligibileToMint :: "miner \<Rightarrow> block \<Rightarrow> int \<Rightarrow> error + bool" where
  "isEligibileToMint miner b target =
     (let cbh = text2Binary (prevBlockHash b) in
      case getEligibilityAddress (wallet miner) of
        None \<Rightarrow> Inl TypeError
      | Some key \<Rightarrow>
          (let pkh = text2Binary key in
           case countMatchingBits cbh pkh of
             Inl e \<Rightarrow> Inl e
           | Inr n \<Rightarrow> Inr (target \<le> n)))"

text \<open>\<open>isValidBlock(b, miner)\<close>, with \<open>now\<close> the value of \<open>Date.now()\<close>. It reads the
  receiver only to log.\<close>

definition isValidBlock :: "env \<Rightarrow> int \<Rightarrow> block \<Rightarrow> miner option \<Rightarrow> error + bool" where
  "isValidBlock E now b miner =
     (case
        (case miner of
           None \<Rightarrow> Inr True
         | Some sender \<Rightarrow>
             (let currentTime = now;
                  blockTimestamp = timestamp b;
                  diff = currentTime - blockTimestamp + 1000;
                  minMintingDifficulty =
                    MINT_ELEGIBILITY_DIFFICULTY - diff div TIME_UNTIL_ELIGIBILITY_DECREASE
              in isEligibileToMint sender b minMintingDifficulty))
      of
        Inl e \<Rightarrow> Inl e
      | Inr False \<Rightarrow> Inr False
      | Inr True \<Rightarrow> if \<not> verifyProof E b then Inr False else Inr True)"

text \<open>
  Modelled from the spec: the constructor \<open>new Block(rewardAddress, parent)\<close> with a
  parent (block.js is not among the sources): \<open>chainLength = parent.chainLength + 1\<close>,
  \<open>prevBlockHash = hash(parent)\<close>, \<open>timestamp = now()\<close>.
\<close>

definition Block :: "env \<Rightarrow> int \<Rightarrow> jsstring option \<Rightarrow> block \<Rightarrow> block" where
  "Block E now addr parent =
     \<lparr>prevBlockHash = hashVal E parent, chainLength = chainLength parent + 1,
      timestamp = now, block.rewardAddress = addr, proof' = 0\<rparr>"

text \<open>What a call takes from outside: the clock readings of \<open>isValidBlock\<close> and of the
  block constructor, and the key pairs that \<open>keypair()\<close> generates for the reward
  address and for the address of the coinage transaction.\<close>

record extern =
  dateNow :: int
  blockNow :: int
  rewardKeys :: keypair
  selfKeys :: keypair

text \<open>\<open>startNewSearch(reuseRewardAddress)\<close>: the exception that ends it (if any) and
  the miner afterwards.\<close>

definition startNewSearch :: "env \<Rightarrow> extern \<Rightarrow> bool \<Rightarrow> miner \<Rightarrow> error option \<times> miner" where
  "startNewSearch E x reuseRewardAddress this =
     (let this1 = this\<lparr>wallet := saveElibilityProof (wallet this)\<rparr>;
          (thrown, this2) =
            (if shouldStartNewBlock this1 then
               (let m1 = this1\<lparr>mint_elegibility_diff_dyn := MINT_ELEGIBILITY_DIFFICULTY\<rparr>;
                    m2 = (if \<not> reuseRewardAddress then
                            (let (addr, w) = makeAddress E (rewardKeys x) (wallet m1)
                             in m1\<lparr>wallet := w, miner.rewardAddress := Some addr\<rparr>)
                          else m1);
                    b = Block E (blockNow x) (miner.rewardAddress m2) (currentBlock m2);
                    m3 = m2\<lparr>previousBlocks := (previousBlocks m2)(prevBlockHash b \<mapsto> currentBlock m2),
                            currentBlock := b\<lparr>proof' := 0\<rparr>,
                            shouldStartNewBlock := False\<rparr>;
                    (selfAddr, w) = makeAddress E (selfKeys x) (wallet m3);
                    (err, w') = postTransaction E w [\<lparr>amount = jsInt 40, address = selfAddr\<rparr>]
                in (err, m3\<lparr>wallet := w'\<rparr>))
             else (None, this1))
      in case thrown of
           Some e \<Rightarrow> (Some e, this2)
         | None \<Rightarrow>
             (case isEligibileToMint this2 (currentBlock this2) (mint_elegibility_diff_dyn this2) of
                Inl e \<Rightarrow> (Some e, this2)
              | Inr True \<Rightarrow> (None, this2\<lparr>shouldMine := True\<rparr>)
              | Inr False \<Rightarrow>
                  (None, this2\<lparr>shouldMine := False,
                               mint_elegibility_diff_dyn := mint_elegibility_diff_dyn this2 - 1,
                               timeouts := timeouts this2 @ [reuseRewardAddress]\<rparr>)))"

text \<open>
  \<open>receiveBlock({block: s, miner})\<close>: the outcome (an exception, \<open>false\<close>, or no value)
  and the receiver afterwards. Its two groups of writes are named: \<open>storeBlock\<close> keeps
  a block that \<open>previousBlocks\<close> does not have, and \<open>cutOver\<close> is the two assignments
  before the call of \<open>startNewSearch(true)\<close>.
\<close>

definition storeBlock :: "env \<Rightarrow> miner \<Rightarrow> block \<Rightarrow> miner" where
  "storeBlock E this b =
     (if previousBlocks this (hashVal E b) = None
      then this\<lparr>previousBlocks := (previousBlocks this)(hashVal E b \<mapsto> b)\<rparr>
      else this)"

definition cutOver :: "miner \<Rightarrow> block \<Rightarrow> miner" where
  "cutOver this b = this\<lparr>currentBlock := b, shouldStartNewBlock := True\<rparr>"

definition receiveBlock ::
  "env \<Rightarrow> extern \<Rightarrow> miner \<Rightarrow> jsstring \<Rightarrow> miner option \<Rightarrow> (error + bool option) \<times> miner" where
  "receiveBlock E x this s miner =
     (let b = deserialize E s in
      case isValidBlock E (dateNow x) b miner of
        Inl e \<Rightarrow> (Inl e, this)
      | Inr False \<Rightarrow> (Inr (Some False), this)
      | Inr True \<Rightarrow>
          (let this1 = storeBlock E this b
           in if chainLength (currentBlock this1) \<le> chainLength b
                 \<and> (case miner of None \<Rightarrow> True | Some sender \<Rightarrow> oid this1 \<noteq> oid sender)
              then
                (case startNewSearch E x True (cutOver this1 b) of
                   (Some e, this2) \<Rightarrow> (Inl e, this2)
                 | (None, this2) \<Rightarrow> (Inr None, this2))
              else (Inr None, this1)))"

text \<open>A run of deliveries to one miner, each with what it takes from outside.\<close>

definition deliver :: "env \<Rightarrow> miner \<Rightarrow> extern \<times> jsstring \<times> miner option \<Rightarrow> miner" where
  "deliver E this d = (case d of (x, s, sender) \<Rightarrow> snd (receiveBlock E x this s sender))"

text \<open>
  The eligibility rule in the words of the specification, to compare with the code:
  \<open>bin16\<close> takes the 8-bit binary representation of every code unit (the digits padded
  with zeros to eight) and keeps the first 16 bits; the count is the length of the longest
  common prefix.
\<close>

definition bin8 :: "16 word \<Rightarrow> string" where
  "bin8 c = (let d = toString2 (unat c) in replicate (8 - length d) (CHR ''0'') @ d)"

definition bin16 :: "jsstring \<Rightarrow> string" where
  "bin16 s = take 16 (concat (map bin8 s))"

definition matchingPrefixBits :: "string \<Rightarrow> string \<Rightarrow> nat" where
  "matchingPrefixBits a b = length (longest_common_prefix a b)"

definition isEligibleToMint_spec :: "jsstring \<Rightarrow> block \<Rightarrow> int \<Rightarrow> bool" where
  "isEligibleToMint_spec minerEligibilityPubKey b target =
     (target \<le> int (matchingPrefixBits (bin16 (prevBlockHash b)) (bin16 minerEligibilityPubKey)))"

text \<open>The target in the words of the specification: the base target minus one for
  every interval that has passed since the block's timestamp.\<close>

definition specTarget :: "int \<Rightarrow> block \<Rightarrow> int" where
  "specTarget now b =
     MINT_ELEGIBILITY_DIFFICULTY - (now - timestamp b) div TIME_UNTIL_ELIGIBILITY_DECREASE"

text \<open>The value of a string of binary digits.\<close>

definition binValue :: "string \<Rightarrow> nat" where
  "binValue ds = foldl (\<lambda>v d. 2 * v + (if d = CHR ''1'' then 1 else 0)) 0 ds"

section \<open>Concrete data for the evaluations\<close>

definition env0 :: env where
  "env0 = \<lparr>hash = (\<lambda>ins outs. [of_nat (length ins), of_nat (length outs)]),
           calcAddress = (\<lambda>k. 104 # k),
           sign = (\<lambda>priv out. (case priv of None \<Rightarrow> [] | Some p \<Rightarrow> p) @ address out),
           verifySignature = (\<lambda>pub out s. s = pub @ address out),
           hashVal = (\<lambda>b. prevBlockHash b),
           verifyProof = (\<lambda>b. proof' b = 0),
           deserialize = (\<lambda>s. \<lparr>prevBlockHash = s, chainLength = 1, timestamp = 0,
                                rewardAddress = None, proof' = 0\<rparr>),
           postTransaction = (\<lambda>w outs. (None, w))\<rparr>"

definition kp0 :: keypair where
  "kp0 = \<lparr>public' = [107], private' = [107]\<rparr>"

definition utxo1 :: utxo where
  "utxo1 = \<lparr>amount = jsInt 42, address = [104, 107]\<rparr>"

definition utxo2 :: utxo where
  "utxo2 = \<lparr>amount = jsInt 25, address = [104, 107]\<rparr>"

text \<open>The wallet of the test "Wallet #spendUTXOs": one address, \<open>utxo1\<close> added first
  and \<open>utxo2\<close> second.\<close>

definition w0 :: wallet where
  "w0 = snd (makeAddress env0 kp0 Wallet)"

definition newCoin :: "utxo \<Rightarrow> jsstring \<Rightarrow> nat \<Rightarrow> coin" where
  "newCoin utxo t i =
     \<lparr>output' = Some utxo, coin.txID = t, coin.outputIndex = i,
      coin.pubKey = None, coin.sig = None\<rparr>"

definition w1 :: wallet where
  "w1 = \<lparr>coins = [0], addresses = [([104, 107], kp0)], proto = None,
         eligibility_address = None, heap = [0 \<mapsto> newCoin utxo1 [116] 0], nextRef = 1\<rparr>"

definition w2 :: wallet where
  "w2 = \<lparr>coins = [1, 0], addresses = [([104, 107], kp0)], proto = None,
         eligibility_address = None,
         heap = [0 \<mapsto> newCoin utxo1 [116] 0, 1 \<mapsto> newCoin utxo2 [116] 1], nextRef = 2\<rparr>"


definition utxoBig :: utxo where
  "utxoBig = \<lparr>amount = jsInt two53, address = [104, 107]\<rparr>"


text \<open>The transactions of the tests "Transaction #spendOutput" and "#isValid", a
  transaction without inputs whose output is 0 and one whose output is \<open>- 1\<close>, one with
  the same output object in both slots, and one that spends \<open>2 ^ 53\<close> into outputs of
  \<open>2 ^ 53\<close> and 1.\<close>

definition txA :: transaction where
  "txA = Transaction env0 (\<lambda>r. \<lparr>amount = jsInt 42, address = [104, 107]\<rparr>) [0] []"

definition txZ :: transaction where
  "txZ = Transaction env0 (\<lambda>r. \<lparr>amount = jsInt 0, address = [104, 107]\<rparr>) [0] []"

definition txN :: transaction where
  "txN = Transaction env0 (\<lambda>r. \<lparr>amount = jsInt (- 1), address = [104, 107]\<rparr>) [0] []"

definition txS :: transaction where
  "txS = Transaction env0 (\<lambda>r. \<lparr>amount = jsInt 1, address = [104, 107]\<rparr>) [0, 0] []"

definition inputA :: input where
  "inputA = \<lparr>txID = [0, 1], outputIndex = 0, pubKey = [107], sig = [107, 104, 107]\<rparr>"

definition cbTX :: transaction where
  "cbTX = Transaction env0
            (\<lambda>r. if r = 0 then \<lparr>amount = jsInt 1, address = [104, 107]\<rparr>
                  else \<lparr>amount = jsInt 42, address = [104, 107]\<rparr>) [0, 1] []"

definition utxosB :: utxos where
  "utxosB = [[0, 2] \<mapsto> map (\<lambda>r. Some (objs cbTX r)) (outputs cbTX)]"

definition inputB :: input where
  "inputB = \<lparr>txID = [0, 2], outputIndex = 1, pubKey = [107], sig = [107, 104, 107]\<rparr>"

definition txB :: transaction where
  "txB = Transaction env0
           (\<lambda>r. if r = 0 then \<lparr>amount = jsInt 20, address = [104, 110]\<rparr>
                 else \<lparr>amount = jsInt 10, address = [104, 107]\<rparr>) [0, 1] [inputB]"

definition utxosBig :: utxos where
  "utxosBig = [[0, 2] \<mapsto> [Some utxoBig]]"

definition inputBig :: input where
  "inputBig = \<lparr>txID = [0, 2], outputIndex = 0, pubKey = [107], sig = [107, 104, 107]\<rparr>"

definition txBig :: transaction where
  "txBig = Transaction env0
             (\<lambda>r. if r = 0 then \<lparr>amount = jsInt two53, address = [104, 110]\<rparr>
                   else \<lparr>amount = jsInt 1, address = [104, 107]\<rparr>) [0, 1] [inputBig]"

text \<open>A block on the parent hash \<open>"aaa"\<close>, a miner with the eligibility key \<open>"0aa"\<close>
  and one with \<open>"@@@"\<close>, and the outside of a call one second after the block's
  timestamp.\<close>

definition blockP :: block where
  "blockP = \<lparr>prevBlockHash = [97, 97, 97], chainLength = 1, timestamp = 0,
             block.rewardAddress = None, proof' = 0\<rparr>"

definition minerK :: miner where
  "minerK = \<lparr>oid = 1, name = [75], wallet = Wallet\<lparr>eligibility_address := Some [48, 97, 97]\<rparr>,
             currentBlock = blockP, previousBlocks = Map.empty, miner.rewardAddress = None,
             mint_elegibility_diff_dyn = 2, shouldStartNewBlock = False, shouldMine = False,
             timeouts = []\<rparr>"

definition minerL :: miner where
  "minerL = minerK\<lparr>oid := 2, name := [76],
                    wallet := Wallet\<lparr>eligibility_address := Some [64, 64, 64]\<rparr>\<rparr>"

definition externX :: extern where
  "externX = \<lparr>dateNow = 1000, blockNow = 1001, rewardKeys = kp0, selfKeys = kp0\<rparr>"

section \<open>Properties of numbers\<close>

subsection \<open>Rounding\<close>

lemma roundHalfEven_int: "roundHalfEven (of_int k) = k"
  by (simp add: roundHalfEven_def)

lemma roundD_exact:
  assumes "x \<noteq> 0" and "\<bar>x\<bar> / 2 powi (max (floorlog2 \<bar>x\<bar> - 52) (- 1074)) = of_int k"
    and "\<bar>x\<bar> < 2 ^ 1024"
  shows "roundD x = Num x"
proof -
  define a where "a = \<bar>x\<bar>"
  define e where "e = max (floorlog2 a - 52) (- 1074)"
  have pos: "(2::rat) powi e > 0" by (simp add: zero_less_power_int)
  have q: "a / 2 powi e = of_int k" using assms(2) by (simp add: a_def e_def)
  have rh: "roundHalfEven (a / 2 powi e) = k" by (simp add: q roundHalfEven_int)
  have r: "of_int k * 2 powi e = a" using q pos by (simp add: field_simps)
  have k: "k \<noteq> 0" using r assms(1) by (auto simp: a_def)
  have lt: "\<not> 2 ^ 1024 \<le> a" using assms(3) by (simp add: a_def)
  have "roundD x = Num (if x < 0 then - a else a)"
    unfolding roundD_def Let_def a_def [symmetric] e_def [symmetric] rh r
    using assms(1) k lt by simp
  then show ?thesis by (simp add: a_def)
qed

lemma floorlog2_int: "0 < m \<Longrightarrow> floorlog2 (of_int m) = bitlen m - 1"
  by (simp add: floorlog2_def)

lemma roundD_int:
  assumes "\<bar>n\<bar> \<le> 2 ^ 53"
  shows "roundD (of_int n) = Num (of_int n)"
proof (cases "n = 0")
  case True
  then show ?thesis by (simp add: roundD_def)
next
  case False
  let ?m = "\<bar>n\<bar>"
  let ?x = "of_int n :: rat"
  have m: "0 < ?m" using False by simp
  have ax: "\<bar>?x\<bar> = of_int ?m" by simp
  have fl: "floorlog2 \<bar>?x\<bar> = bitlen ?m - 1" unfolding ax using m by (rule floorlog2_int)
  let ?e = "max (bitlen ?m - 1 - 52) (- 1074)"
  have "?m < 2 ^ 54" using assms by (simp add: order.strict_trans1)
  then have b54: "bitlen ?m \<le> 54" by (simp add: bitlen_le_iff_power)
  have "\<exists>k. of_int ?m / (2::rat) powi ?e = of_int k"
  proof (cases "bitlen ?m \<le> 53")
    case True
    then have e: "?e \<le> 0" by simp
    have "(2::rat) powi ?e = 1 / 2 ^ nat (- ?e)"
      using e by (simp add: power_int_def field_simps)
    then have "of_int ?m / (2::rat) powi ?e = of_int (?m * 2 ^ nat (- ?e))" by simp
    then show ?thesis by blast
  next
    case False
    with b54 have b: "bitlen ?m = 54" by simp
    then have "2 ^ 53 \<le> ?m" using bitlen_ge_iff_power [of 54 ?m] by simp
    with assms have eq: "?m = 2 ^ 53" by simp
    have "of_int ?m / (2::rat) powi ?e = of_int (2 ^ 52)"
      unfolding b unfolding eq by simp
    then show ?thesis by blast
  qed
  then obtain k where k0: "of_int ?m / (2::rat) powi ?e = of_int k" by blast
  have e_eq: "max (floorlog2 \<bar>?x\<bar> - 52) (- 1074) = ?e" by (simp only: fl)
  have k: "\<bar>?x\<bar> / 2 powi (max (floorlog2 \<bar>?x\<bar> - 52) (- 1074)) = of_int k"
    by (subst e_eq) (simp only: ax k0)
  have lt: "\<bar>?x\<bar> < 2 ^ 1024"
  proof -
    have "of_int ?m \<le> (2::rat) ^ 53" using assms by (metis of_int_le_iff of_int_numeral of_int_power)
    also have "\<dots> < 2 ^ 1024" by simp
    finally show ?thesis unfolding ax .
  qed
  have "?x \<noteq> 0" using False by simp
  from roundD_exact [OF this k lt] show ?thesis .
qed

text \<open>Between \<open>2 ^ 53\<close> and \<open>2 ^ 54\<close> the doubles are the even integers.\<close>

lemma roundD_binade53:
  assumes "2 ^ 53 \<le> n" and "n < 2 ^ 54"
  shows "roundD (of_int n) = Num (of_int (2 * roundHalfEven (of_int n / 2)))"
proof -
  let ?x = "of_int n :: rat"
  have n0: "0 < n" using assms(1) by (simp add: order.strict_trans2)
  have ax: "\<bar>?x\<bar> = ?x" using n0 by simp
  have "bitlen n \<le> 54" using assms(2) by (simp add: bitlen_le_iff_power)
  moreover have "54 \<le> bitlen n" using assms(1) bitlen_ge_iff_power [of 54 n] by simp
  ultimately have b: "bitlen n = 54" by simp
  have fl: "floorlog2 ?x = 53" using floorlog2_int [OF n0] b by simp
  define k where "k = roundHalfEven (?x / 2)"
  have f: "\<lfloor>?x / 2\<rfloor> = n div 2" by (metis floor_divide_of_int_eq of_int_numeral)
  have lo: "2 ^ 52 \<le> n div 2" using assms(1) by simp
  have hi: "n div 2 < 2 ^ 53" using assms(2) by simp
  have kb: "n div 2 \<le> k \<and> k \<le> n div 2 + 1"
    by (simp add: k_def roundHalfEven_def Let_def f)
  have "(0::int) < 2 ^ 52" by simp
  with kb lo have kpos: "k \<noteq> 0" by linarith
  have "of_int k * (2::rat) \<le> of_int (2 ^ 53 * 2)"
    using kb hi by (metis (no_types, opaque_lifting) add.commute mult_right_mono of_int_le_iff
        of_int_mult of_int_numeral zero_le_numeral zless_imp_add1_zle order.trans)
  also have "\<dots> < 2 ^ 1024" by simp
  finally have small: "\<not> 2 ^ 1024 \<le> of_int k * (2::rat)" by simp
  have "roundD ?x = Num (of_int k * 2)"
    using n0 kpos small
    by (simp add: roundD_def Let_def fl k_def [symmetric] del: of_int_mult)
  then show ?thesis by (simp add: k_def mult.commute)
qed


lemma jsAdd_exact:
  assumes "toRat x = Some (of_int a)" and "toRat y = Some (of_int b)" and "\<bar>a + b\<bar> \<le> 2 ^ 53"
  shows "toRat (jsAdd x y) = Some (of_int (a + b))"
proof -
  have r: "toRat (roundD (of_int a + of_int b)) = Some (of_int (a + b))"
    using roundD_int [OF assms(3)] by simp
  show ?thesis
    using assms(1,2) r by (cases x; cases y) auto
qed


lemma jsLess_finite:
  assumes "toRat x = Some p" and "toRat y = Some q"
  shows "jsLess x y = (p < q)"
  using assms by (cases x; cases y) auto

lemma jsAdd_int: "\<bar>a + b\<bar> \<le> 2 ^ 53 \<Longrightarrow> jsAdd (jsInt a) (jsInt b) = jsInt (a + b)"
  using roundD_int [of "a + b"] by (simp add: jsInt_def)

lemma jsSub_int: "\<bar>a - b\<bar> \<le> 2 ^ 53 \<Longrightarrow> jsSub (jsInt a) (jsInt b) = jsInt (a - b)"
  using roundD_int [of "a - b"] by (simp add: jsInt_def jsSub_def)

lemma jsLess_int: "jsLess (jsInt a) (jsInt b) = (a < b)"
  by (simp add: jsInt_def)

lemma jsNeg_int: "a \<noteq> 0 \<Longrightarrow> jsNeg (jsInt a) = jsInt (- a)"
  by (simp add: jsInt_def)

lemma jsInt_eq: "jsInt a = jsInt b \<longleftrightarrow> a = b"
  by (simp add: jsInt_def)

lemma roundHalfEven_half:
  "roundHalfEven (of_int m + 1 / 2) = (if even m then m else m + 1)"
proof -
  have "\<lfloor>rat_of_int m + 1 / 2\<rfloor> = m" by linarith
  then show ?thesis by (simp add: roundHalfEven_def Let_def)
qed

lemma two53_plus_1: "jsAdd (jsInt two53) (jsInt 1) = jsInt two53"
proof -
  have "roundD (of_int (two53 + 1)) = Num (of_int (2 * roundHalfEven (of_int (two53 + 1) / 2)))"
    by (rule roundD_binade53) (simp_all add: two53_def)
  moreover have "rat_of_int (two53 + 1) / 2 = of_int (2 ^ 52) + 1 / 2"
    by (simp add: two53_def)
  ultimately have "roundD (of_int (two53 + 1)) = Num (of_int (2 * 2 ^ 52))"
    by (simp only: roundHalfEven_half) simp
  then show ?thesis by (simp add: jsInt_def two53_def)
qed


subsection \<open>Sums of integer amounts\<close>

lemma natAmount_toRat: "natAmount x \<Longrightarrow> toRat x = Some (of_int (intOf x)) \<and> 0 \<le> intOf x"
  by (auto simp: natAmount_def intOf_def split: option.splits)

lemma natAmount_jsInt: "natAmount (jsInt n) = (0 \<le> n)"
  by (simp add: natAmount_def jsInt_def)

lemma intOf_jsInt: "intOf (jsInt n) = n"
  by (simp add: intOf_def jsInt_def)

lemma toRat_jsInt: "toRat (jsInt n) = Some (of_int n)"
  by (simp add: jsInt_def)

lemma sum_intOf_nonneg: "list_all natAmount xs \<Longrightarrow> 0 \<le> sum_list (map intOf xs)"
  by (induction xs) (auto dest: natAmount_toRat)

lemma foldl_jsAdd_exact:
  assumes "list_all natAmount xs" and "toRat s = Some (of_int a)" and "0 \<le> a"
    and "a + sum_list (map intOf xs) \<le> 2 ^ 53"
  shows "toRat (foldl jsAdd s xs) = Some (of_int (a + sum_list (map intOf xs)))"
  using assms
proof (induction xs arbitrary: s a)
  case Nil
  then show ?case by simp
next
  case (Cons x xs)
  from Cons.prems(1) have x: "toRat x = Some (of_int (intOf x))" "0 \<le> intOf x"
    and xs: "list_all natAmount xs"
    by (auto dest: natAmount_toRat)
  have rest: "0 \<le> sum_list (map intOf xs)" using xs by (rule sum_intOf_nonneg)
  have "\<bar>a + intOf x\<bar> \<le> 2 ^ 53" using Cons.prems(3,4) x(2) rest by simp
  from jsAdd_exact [OF Cons.prems(2) x(1) this]
  have s': "toRat (jsAdd s x) = Some (of_int (a + intOf x))" .
  have "toRat (foldl jsAdd (jsAdd s x) xs) = Some (of_int (a + intOf x + sum_list (map intOf xs)))"
    using Cons.prems(3,4) x(2) by (intro Cons.IH [OF xs s']) simp_all
  then show ?case by (simp add: add.assoc)
qed

lemma jsSum_exact:
  assumes "list_all natAmount xs" and "sum_list (map intOf xs) \<le> 2 ^ 53"
  shows "toRat (jsSum xs) = Some (of_int (sum_list (map intOf xs)))"
  using foldl_jsAdd_exact [OF assms(1) toRat_jsInt [of 0]] assms(2) by (simp add: jsSum_def)



section \<open>Properties of the wallet\<close>

subsection \<open>The wallets of the public interface\<close>

lemma getProp_setProp:
  assumes "getProp w k \<noteq> Undefined"
  shows "getProp (setProp w a kp) k \<noteq> Undefined"
  using assms
  by (auto simp: getProp_def lookup_def setProp_def update_conv' split: option.splits if_splits)

lemma getProp_frame:
  "addresses w' = addresses w \<Longrightarrow> proto w' = proto w \<Longrightarrow> getProp w' = getProp w"
  by (rule ext) (simp add: getProp_def)

lemma reduce_balance_ok:
  "list_all (spendable A h) rs \<Longrightarrow>
   reduce_balance h rs acc = Inr (foldl jsAdd acc (map (amountOf h) rs))"
  by (induction rs arbitrary: acc)
     (auto simp: spendable_def amountOf_def split: option.splits)

lemma coin_ok_spendable: "coin_ok w r \<Longrightarrow> spendable (getProp w) (heap w) r"
  by (simp add: coin_ok_def spendable_def)

lemma wallet_ok_spendable: "wallet_ok w \<Longrightarrow> list_all (spendable (getProp w) (heap w)) (coins w)"
  by (auto simp: wallet_ok_def list_all_iff coin_ok_spendable)

lemma balance_ok:
  "wallet_ok w \<Longrightarrow> balance w = Inr (jsSum (map (amountOf (heap w)) (coins w)))"
  using reduce_balance_ok [OF wallet_ok_spendable, of w "jsInt 0"]
  by (simp add: balance_def jsSum_def)

lemma Wallet_ok: "wallet_ok Wallet"
  by (simp add: wallet_ok_def Wallet_def)



lemma setProp_frame:
  "coins (setProp w a kp) = coins w" "heap (setProp w a kp) = heap w"
  "nextRef (setProp w a kp) = nextRef w"
  by (simp_all add: setProp_def)

lemma coin_ok_newkey:
  assumes "coin_ok w r"
  shows "coin_ok (setProp w a kp) r"
proof -
  from assms obtain c out where "r < nextRef w" "heap w r = Some c" "output' c = Some out"
    "getProp w (address out) \<noteq> Undefined"
    by (auto simp: coin_ok_def split: option.splits)
  then show ?thesis by (simp add: coin_ok_def setProp_frame getProp_setProp)
qed

lemma makeAddress_ok:
  assumes "wallet_ok w"
  shows "wallet_ok (snd (makeAddress E kp w))"
  using assms
  by (auto simp: wallet_ok_def makeAddress_def Let_def list_all_iff setProp_frame
           intro: coin_ok_newkey)

lemma amountOf_cong:
  "\<forall>r\<in>set rs. h' r = h r \<Longrightarrow> map (amountOf h') rs = map (amountOf h) rs"
  by (simp add: amountOf_def)

lemma spendLoop_shape:
  assumes "distinct rs" and "list_all (spendable A h) rs"
  shows "\<exists>k\<le>length rs.
           spendLoop E A rs h amt needed =
             (None, signedHeap E A (take k rs) h,
              remaining amt (map (amountOf h) (take k rs)), needed @ take k rs)
         \<and> (\<forall>j<k. jsLess (jsInt 0) (remaining amt (map (amountOf h) (take j rs))))
         \<and> (k < length rs \<longrightarrow>
              \<not> jsLess (jsInt 0) (remaining amt (map (amountOf h) (take k rs))))"
  using assms
proof (induction rs arbitrary: h amt needed)
  case Nil
  then show ?case by (simp add: signedHeap_def remaining_def)
next
  case (Cons r rs)
  show ?case
  proof (cases "jsLess (jsInt 0) amt")
    case False
    have "spendLoop E A (r # rs) h amt needed =
            (None, signedHeap E A (take 0 (r # rs)) h,
             remaining amt (map (amountOf h) (take 0 (r # rs))), needed @ take 0 (r # rs))"
      using False by (simp add: signedHeap_def remaining_def)
    moreover have "\<not> jsLess (jsInt 0) (remaining amt (map (amountOf h) (take 0 (r # rs))))"
      using False by (simp add: remaining_def)
    ultimately show ?thesis by (intro exI [of _ 0]) simp
  next
    case True
    from Cons.prems obtain c out where
      c: "h r = Some c" and out: "output' c = Some out" and kp: "A (address out) \<noteq> Undefined"
      by (auto simp: spendable_def split: option.splits)
    define c' where "c' = c\<lparr>coin.pubKey := publicOf (A (address out)),
                           coin.sig := Some (sign E (privateOf (A (address out))) out),
                           output' := None\<rparr>"
    define h' where "h' = h(r \<mapsto> c')"
    define amt' where "amt' = jsSub amt (amount out)"
    have notin: "r \<notin> set rs" and dist: "distinct rs" using Cons.prems by simp_all
    have same: "\<forall>x\<in>set rs. h' x = h x" using notin by (auto simp: h'_def)
    have sp: "list_all (spendable A h') rs"
      using Cons.prems(2) same by (auto simp: list_all_iff spendable_def)
    have step: "spendLoop E A (r # rs) h amt needed = spendLoop E A rs h' amt' (needed @ [r])"
      using True c out kp by (simp add: h'_def c'_def amt'_def)
    from Cons.IH [OF dist sp, of amt' "needed @ [r]"] obtain k where
      k: "k \<le> length rs"
      and res: "spendLoop E A rs h' amt' (needed @ [r]) =
             (None, signedHeap E A (take k rs) h',
              remaining amt' (map (amountOf h') (take k rs)), (needed @ [r]) @ take k rs)"
      and more: "\<forall>j<k. jsLess (jsInt 0) (remaining amt' (map (amountOf h') (take j rs)))"
      and stop: "k < length rs \<longrightarrow>
                   \<not> jsLess (jsInt 0) (remaining amt' (map (amountOf h') (take k rs)))"
      by blast
    have am: "\<And>j. map (amountOf h') (take j rs) = map (amountOf h) (take j rs)"
      using same by (intro amountOf_cong) (auto dest: in_set_takeD)
    have ar: "amountOf h r = amount out" using c out by (simp add: amountOf_def)
    have rem: "\<And>j. remaining amt (map (amountOf h) (take (Suc j) (r # rs))) =
                    remaining amt' (map (amountOf h') (take j rs))"
      by (simp add: remaining_def ar am amt'_def)
    have sc: "signedCoin E A c = Some c'" using out by (simp add: signedCoin_def c'_def)
    have hp: "signedHeap E A (take k rs) h' = signedHeap E A (take (Suc k) (r # rs)) h"
    proof
      fix x
      show "signedHeap E A (take k rs) h' x = signedHeap E A (take (Suc k) (r # rs)) h x"
        using notin c sc same
        by (cases "x = r") (auto simp: signedHeap_def h'_def dest: in_set_takeD)
    qed
    have "spendLoop E A (r # rs) h amt needed =
            (None, signedHeap E A (take (Suc k) (r # rs)) h,
             remaining amt (map (amountOf h) (take (Suc k) (r # rs))),
             needed @ take (Suc k) (r # rs))"
      using step res hp rem [of k] by simp
    moreover have "\<forall>j<Suc k. jsLess (jsInt 0) (remaining amt (map (amountOf h) (take j (r # rs))))"
    proof (intro allI impI)
      fix j assume "j < Suc k"
      show "jsLess (jsInt 0) (remaining amt (map (amountOf h) (take j (r # rs))))"
      proof (cases j)
        case 0
        then show ?thesis using True by (simp add: remaining_def)
      next
        case (Suc i)
        then have "i < k" using \<open>j < Suc k\<close> by simp
        then show ?thesis using more rem [of i] Suc by simp
      qed
    qed
    moreover have "Suc k < length (r # rs) \<longrightarrow>
        \<not> jsLess (jsInt 0) (remaining amt (map (amountOf h) (take (Suc k) (r # rs))))"
      using stop rem [of k] by simp
    ultimately show ?thesis using k by (intro exI [of _ "Suc k"]) simp
  qed
qed

lemma removeNeeded_prefix: "removeNeeded (xs @ ys) xs = ys"
  by (induction xs) (simp_all add: splice1_def)

lemma removeNeeded_take: "removeNeeded cs (take k cs) = drop k cs"
  using removeNeeded_prefix [of "take k cs" "drop k cs"] by simp


text \<open>What \<open>spendUTXOs\<close> does on every wallet of the interface and every number.\<close>

lemma spendUTXOs_general:
  assumes "wallet_ok w"
  shows "balance w = Inr (jsSum (map (amountOf (heap w)) (coins w)))
     \<and> (jsLess (jsSum (map (amountOf (heap w)) (coins w))) amt \<longrightarrow>
          spendUTXOs E w amt = (Inl InsufficientFunds, w))
     \<and> (\<not> jsLess (jsSum (map (amountOf (heap w)) (coins w))) amt \<longrightarrow>
          (\<exists>k\<le>length (coins w).
             spendUTXOs E w amt =
               (Inr (take k (coins w),
                     jsNeg (remaining amt (map (amountOf (heap w)) (take k (coins w))))),
                w\<lparr>heap := signedHeap E (getProp w) (take k (coins w)) (heap w),
                  coins := drop k (coins w)\<rparr>)
           \<and> (\<forall>j<k. jsLess (jsInt 0)
                       (remaining amt (map (amountOf (heap w)) (take j (coins w)))))
           \<and> (k < length (coins w) \<longrightarrow>
                \<not> jsLess (jsInt 0)
                    (remaining amt (map (amountOf (heap w)) (take k (coins w)))))))"
proof -
  let ?h = "heap w" and ?cs = "coins w"
  have bal: "balance w = Inr (jsSum (map (amountOf ?h) ?cs))" using assms by (rule balance_ok)
  have sp: "list_all (spendable (getProp w) ?h) ?cs" using assms by (rule wallet_ok_spendable)
  have dist: "distinct ?cs" using assms by (simp add: wallet_ok_def)
  from spendLoop_shape [OF dist sp, of E amt "[]"] obtain k where
    k: "k \<le> length ?cs"
    and loop: "spendLoop E (getProp w) ?cs ?h amt [] =
           (None, signedHeap E (getProp w) (take k ?cs) ?h,
            remaining amt (map (amountOf ?h) (take k ?cs)), take k ?cs)"
    and more: "\<forall>j<k. jsLess (jsInt 0) (remaining amt (map (amountOf ?h) (take j ?cs)))"
    and stop: "k < length ?cs \<longrightarrow>
                 \<not> jsLess (jsInt 0) (remaining amt (map (amountOf ?h) (take k ?cs)))"
    by auto
  have fail: "jsLess (jsSum (map (amountOf ?h) ?cs)) amt \<longrightarrow>
                spendUTXOs E w amt = (Inl InsufficientFunds, w)"
    by (simp add: spendUTXOs_def bal)
  have succ: "spendUTXOs E w amt =
               (Inr (take k ?cs, jsNeg (remaining amt (map (amountOf ?h) (take k ?cs)))),
                w\<lparr>heap := signedHeap E (getProp w) (take k ?cs) ?h, coins := drop k ?cs\<rparr>)"
    if "\<not> jsLess (jsSum (map (amountOf ?h) ?cs)) amt"
    using that by (simp add: spendUTXOs_def bal loop removeNeeded_take)
  show ?thesis using bal fail succ k more stop by blast
qed

lemma coin_ok_frame:
  assumes "coin_ok w r" and "h r = heap w r"
  shows "coin_ok (w\<lparr>heap := h, coins := cs\<rparr>) r"
proof -
  have "getProp (w\<lparr>heap := h, coins := cs\<rparr>) = getProp w"
    by (rule getProp_frame) simp_all
  then show ?thesis using assms by (auto simp: coin_ok_def split: option.splits)
qed

lemma spendUTXOs_ok:
  assumes "wallet_ok w"
  shows "wallet_ok (snd (spendUTXOs E w amt))"
proof (cases "jsLess (jsSum (map (amountOf (heap w)) (coins w))) amt")
  case True
  then show ?thesis using assms spendUTXOs_general [OF assms, of amt E] by simp
next
  case False
  with spendUTXOs_general [OF assms, of amt E] obtain k where
    "spendUTXOs E w amt =
       (Inr (take k (coins w),
             jsNeg (remaining amt (map (amountOf (heap w)) (take k (coins w))))),
        w\<lparr>heap := signedHeap E (getProp w) (take k (coins w)) (heap w),
          coins := drop k (coins w)\<rparr>)"
    by blast
  then have res: "snd (spendUTXOs E w amt) =
            w\<lparr>heap := signedHeap E (getProp w) (take k (coins w)) (heap w),
              coins := drop k (coins w)\<rparr>"
    by simp
  have dist: "distinct (coins w)" using assms by (simp add: wallet_ok_def)
  have keep: "coin_ok (w\<lparr>heap := signedHeap E (getProp w) (take k (coins w)) (heap w),
                         coins := drop k (coins w)\<rparr>) r"
    if "r \<in> set (drop k (coins w))" for r
  proof -
    have "r \<notin> set (take k (coins w))"
      using dist that distinct_append [of "take k (coins w)" "drop k (coins w)"] by auto
    then have "signedHeap E (getProp w) (take k (coins w)) (heap w) r = heap w r"
      by (simp add: signedHeap_def)
    moreover have "coin_ok w r"
      using assms that by (auto simp: wallet_ok_def list_all_iff dest: in_set_dropD)
    ultimately show ?thesis by (intro coin_ok_frame)
  qed
  show ?thesis
    unfolding res using dist keep by (simp add: wallet_ok_def list_all_iff)
qed

lemma spendUTXOsFully_ok:
  assumes "wallet_ok w"
  shows "wallet_ok (snd (spendUTXOsFully E w amt))"
proof -
  have "snd (spendUTXOsFully E w amt) = snd (spendUTXOs E w amt)"
    by (simp add: spendUTXOsFully_def spendUTXOs_def split: sum.splits prod.splits option.splits)
  then show ?thesis using assms by (simp add: spendUTXOs_ok)
qed

lemma coin_ok_eligibility: "coin_ok (w\<lparr>eligibility_address := e\<rparr>) r = coin_ok w r"
proof -
  have "getProp (w\<lparr>eligibility_address := e\<rparr>) = getProp w"
    by (rule getProp_frame) simp_all
  then show ?thesis by (simp add: coin_ok_def split: option.splits)
qed

lemma saveElibilityProof_ok:
  assumes "wallet_ok w"
  shows "wallet_ok (saveElibilityProof w)"
  using assms by (simp add: wallet_ok_def saveElibilityProof_def coin_ok_eligibility [abs_def])

subsection \<open>The wallets of the evaluations\<close>

lemma w0_eq: "w0 = Wallet\<lparr>addresses := [([104, 107], kp0)]\<rparr>"
  by (simp add: w0_def makeAddress_def Let_def env0_def kp0_def setProp_def js_def Wallet_def)

lemma getProp_own: "map_of (addresses w) k = Some kp \<Longrightarrow> getProp w k = KeyPair kp"
  by (simp add: getProp_def lookup_def)


lemma jsAdd_zero_two53: "jsAdd (jsInt 0) (jsInt two53) = jsInt two53"
  using jsAdd_int [of 0 two53] by (simp add: two53_def)


subsection \<open>The order in which coins are spent\<close>

text \<open>
  Claim C1. The claim: coins are spent from the oldest end of the queue. The code:
  \<open>addUTXO\<close> puts a coin at index 0 and the loop of \<open>spendUTXOs\<close> starts at index 0,
  so the coin added last is spent first. In the wallet of the repository's own test
  (\<open>utxo1\<close> of 42 added first, \<open>utxo2\<close> of 25 added second) \<open>spendUTXOs(20)\<close> signs
  the second coin (reference 1, output index 1) and returns a change of 5; the first coin
  (reference 0) stays in the queue.
\<close>

theorem spendUTXOs_takes_newest:
  "addUTXO w0 utxo1 [116] 0 = Inr w1
   \<and> addUTXO w1 utxo2 [116] 1 = Inr w2
   \<and> fst (spendUTXOs env0 w2 (jsInt 20)) = Inr ([1], jsInt 5)
   \<and> coins (snd (spendUTXOs env0 w2 (jsInt 20))) = [0]
   \<and> map_option output' (heap w2 1) = Some (Some utxo2)
   \<and> map_option output' (heap w2 0) = Some (Some utxo1)"
proof -
  have k: "getProp w0 [104, 107] = KeyPair kp0" "getProp w1 [104, 107] = KeyPair kp0"
    "getProp w2 [104, 107] = KeyPair kp0"
    by (simp_all add: getProp_own w0_eq w1_def w2_def)
  have a1: "addUTXO w0 utxo1 [116] 0 = Inr w1"
    by (simp add: addUTXO_def utxo1_def k) (simp add: w0_eq Wallet_def w1_def newCoin_def utxo1_def)
  have a2: "addUTXO w1 utxo2 [116] 1 = Inr w2"
    by (simp add: addUTXO_def utxo2_def k) (simp add: w1_def w2_def newCoin_def utxo2_def)
  have bal: "balance w2 = Inr (jsInt 67)"
    by (simp add: balance_def w2_def newCoin_def utxo1_def utxo2_def jsAdd_int)
  have h1: "heap w2 1 = Some (newCoin utxo2 [116] 1)" and cs: "coins w2 = [1, 0]"
    by (simp_all add: w2_def)
  have h1s: "heap w2 (Suc 0) = Some (newCoin utxo2 [116] 1)" using h1 by simp
  have sh: "(heap w2)(1 \<mapsto> newCoin utxo2 [116] 1
            \<lparr>coin.pubKey := Some (public' kp0),
               coin.sig := Some (sign env0 (Some (private' kp0)) utxo2), output' := None\<rparr>)
          = signedHeap env0 (getProp w2) [1] (heap w2)"
    by (rule ext) (simp add: signedHeap_def signedCoin_def h1s newCoin_def utxo2_def k)
  have loop: "spendLoop env0 (getProp w2) (coins w2) (heap w2) (jsInt 20) [] =
                (None, signedHeap env0 (getProp w2) [1] (heap w2), jsInt (- 5), [1])"
    unfolding sh [symmetric]
    by (simp add: cs h1 h1s newCoin_def utxo2_def k jsLess_int jsSub_int)
  have s1: "fst (spendUTXOs env0 w2 (jsInt 20)) = Inr ([1], jsInt 5)"
    by (simp add: spendUTXOs_def bal loop jsLess_int jsNeg_int)
  have s2: "coins (snd (spendUTXOs env0 w2 (jsInt 20))) = [0]"
    by (simp add: spendUTXOs_def bal loop jsLess_int) (simp add: w2_def splice1_def)
  have "map_option output' (heap w2 1) = Some (Some utxo2)"
    "map_option output' (heap w2 0) = Some (Some utxo1)"
    by (simp_all add: w2_def newCoin_def)
  with a1 a2 s1 s2 show ?thesis by blast
qed





subsection \<open>What \<open>spendUTXOs\<close> does\<close>




subsection \<open>Adding the same output twice\<close>

lemma hasKey_defined: "hasKey w a \<Longrightarrow> getProp w a \<noteq> Undefined"
  by (auto simp: hasKey_def)



text \<open>With amounts that are integers, not negative, and a total of at most \<open>2 ^ 53\<close>
  no addition rounds: the sum with the amount twice in front is the sum without, plus
  twice the amount.\<close>

lemma jsSum_twice_exact:
  assumes "list_all natAmount (a # xs)"
    and "2 * intOf a + sum_list (map intOf xs) \<le> 2 ^ 53"
  shows "toRat (jsSum xs) = Some (of_int (sum_list (map intOf xs)))
       \<and> toRat (jsSum (a # a # xs)) = Some (of_int (sum_list (map intOf xs) + 2 * intOf a))"
proof -
  have a: "0 \<le> intOf a" using assms(1) by (auto dest: natAmount_toRat)
  have xs: "list_all natAmount xs" using assms(1) by simp
  have "toRat (jsSum xs) = Some (of_int (sum_list (map intOf xs)))"
    using a assms(2) by (intro jsSum_exact [OF xs]) simp
  moreover have "toRat (jsSum (a # a # xs)) = Some (of_int (sum_list (map intOf (a # a # xs))))"
    using assms by (intro jsSum_exact) simp_all
  ultimately show ?thesis by simp
qed

section \<open>Properties of transactions\<close>

subsection \<open>\<open>spendOutput\<close>\<close>

text \<open>
  Claim C3, as the specification states it, does not hold: a matching \<open>txID\<close> with an
  \<open>outputIndex\<close> past the end of \<open>outputs\<close> ends in a TypeError, which is none of the
  three failures of the claim, and no amount is returned.
\<close>

theorem spendOutput_out_of_range:
  "txID (inputA\<lparr>outputIndex := 1\<rparr>) = id' txA
   \<and> spendOutput env0 txA (inputA\<lparr>outputIndex := 1\<rparr>) = Inl TypeError
   \<and> TypeError \<notin> {WrongTxID, AddressMismatch, BadSignature}"
  by (simp add: spendOutput_def txA_def inputA_def Transaction_def env0_def)

text \<open>
  Claim C3, amended. \<open>spendOutput\<close> fails with WrongTxID when the input's \<open>txID\<close> is not
  the transaction's id. Otherwise, when \<open>outputIndex\<close> is past the end of \<open>outputs\<close>, it
  raises a TypeError. Otherwise, for the output at \<open>outputIndex\<close>: it fails with
  AddressMismatch when the address of the public key differs from the output's address;
  otherwise with BadSignature when the signature does not verify; otherwise it returns the
  output's amount. It writes nothing to the transaction.
\<close>

theorem spendOutput_spec:
  "(txID inp \<noteq> id' t \<longrightarrow> spendOutput E t inp = Inl WrongTxID)
   \<and> (txID inp = id' t \<and> length (outputs t) \<le> outputIndex inp \<longrightarrow>
        spendOutput E t inp = Inl TypeError)
   \<and> (txID inp = id' t \<and> outputIndex inp < length (outputs t) \<longrightarrow>
        (calcAddress E (pubKey inp) \<noteq> address (objs t (outputs t ! outputIndex inp)) \<longrightarrow>
           spendOutput E t inp = Inl AddressMismatch)
      \<and> (calcAddress E (pubKey inp) = address (objs t (outputs t ! outputIndex inp))
           \<and> \<not> verifySignature E (pubKey inp) (objs t (outputs t ! outputIndex inp)) (sig inp) \<longrightarrow>
           spendOutput E t inp = Inl BadSignature)
      \<and> (calcAddress E (pubKey inp) = address (objs t (outputs t ! outputIndex inp))
           \<and> verifySignature E (pubKey inp) (objs t (outputs t ! outputIndex inp)) (sig inp) \<longrightarrow>
           spendOutput E t inp = Inr (amount (objs t (outputs t ! outputIndex inp)))))"
  by (simp add: spendOutput_def Let_def)

theorem spendOutput_spec_witness:
  "txID inputA = id' txA \<and> outputIndex inputA < length (outputs txA)
   \<and> spendOutput env0 txA inputA = Inr (jsInt 42)"
  using spendOutput_spec [of inputA txA env0]
  by (simp add: txA_def inputA_def Transaction_def env0_def)

subsection \<open>\<open>isValid\<close>\<close>

lemma checkInput_verified:
  "checkInput E utxos (inSum, valid) txIn =
     (if verified E utxos txIn then (jsAdd inSum (refAmount utxos txIn), valid)
      else (inSum, False))"
  by (auto simp: verified_def referenced_def refAmount_def split: option.splits)

lemma foldl_checkInput:
  "foldl (checkInput E utxos) (inSum, valid) ins =
     (foldl jsAdd inSum (map (refAmount utxos) (filter (verified E utxos) ins)),
      valid \<and> list_all (verified E utxos) ins)"
proof (induction ins arbitrary: inSum valid)
  case Nil
  then show ?case by simp
next
  case (Cons txIn ins)
  show ?case
    by (simp add: checkInput_verified Cons.IH del: checkInput.simps)
qed

lemma filter_verified:
  "list_all (verified E utxos) ins \<Longrightarrow> filter (verified E utxos) ins = ins"
  by (induction ins) simp_all

lemma outSum_eq:
  "foldl (\<lambda>outSum txOut. jsAdd outSum (amount (objs t txOut))) (jsInt 0) (outputs t)
     = jsSum (outAmounts t)"
  by (simp add: jsSum_def outAmounts_def foldl_map)

lemma isValid_eq:
  "isValid E t utxos =
     (list_all (verified E utxos) (inputs t)
      \<and> \<not> jsLess (jsSum (map (refAmount utxos) (inputs t))) (jsSum (outAmounts t)))"
proof (cases "list_all (verified E utxos) (inputs t)")
  case True
  then show ?thesis
    by (simp add: isValid_def foldl_checkInput filter_verified outSum_eq Let_def jsSum_def)
next
  case False
  then show ?thesis by (simp add: isValid_def foldl_checkInput)
qed

text \<open>
  Claim C4, as the specification states it, does not hold: the two sums are sums of
  JavaScript numbers. The transaction \<open>txBig\<close> spends one output of \<open>2 ^ 53\<close>, with a
  valid signature, into outputs of \<open>2 ^ 53\<close> and 1. The outputs hold \<open>2 ^ 53 + 1\<close>, more
  than the input; the code's sum of the outputs is \<open>2 ^ 53\<close>, because \<open>2 ^ 53 + 1\<close> is
  not a double, and \<open>isValid\<close> returns true.
\<close>

theorem isValid_rounded_sum:
  "inputs txBig \<noteq> []
   \<and> isValid env0 txBig utxosBig
   \<and> map (refAmount utxosBig) (inputs txBig) = [jsInt two53]
   \<and> outAmounts txBig = [jsInt two53, jsInt 1]
   \<and> sum_list (map intOf (map (refAmount utxosBig) (inputs txBig))) = two53
   \<and> sum_list (map intOf (outAmounts txBig)) = two53 + 1
   \<and> jsSum (outAmounts txBig) = jsInt two53"
proof -
  have i: "inputs txBig = [inputBig]" and o: "outputs txBig = [0, 1]"
    by (simp_all add: txBig_def Transaction_def)
  have r: "referenced utxosBig inputBig = Some utxoBig"
    by (simp add: referenced_def utxosBig_def inputBig_def)
  have v: "verified env0 utxosBig inputBig"
    by (simp add: verified_def r) (simp add: utxoBig_def inputBig_def env0_def)
  have ra: "map (refAmount utxosBig) (inputs txBig) = [jsInt two53]"
    by (simp add: i refAmount_def r utxoBig_def)
  have oa: "outAmounts txBig = [jsInt two53, jsInt 1]"
    by (simp add: outAmounts_def txBig_def Transaction_def)
  have so: "jsSum (outAmounts txBig) = jsInt two53"
    by (simp add: oa jsSum_def jsAdd_zero_two53 two53_plus_1)
  have si: "jsSum (map (refAmount utxosBig) (inputs txBig)) = jsInt two53"
    by (simp add: ra jsSum_def jsAdd_zero_two53)
  have "isValid env0 txBig utxosBig"
    by (simp add: isValid_eq so si jsLess_int) (simp add: i v)
  moreover have "sum_list (map intOf (map (refAmount utxosBig) (inputs txBig))) = two53"
    by (simp add: ra intOf_jsInt)
  moreover have "sum_list (map intOf (outAmounts txBig)) = two53 + 1"
    by (simp add: oa intOf_jsInt)
  ultimately show ?thesis using i ra oa so by simp
qed

text \<open>
  Claim C4, amended. For a transaction with inputs and any UTXO map, \<open>isValid\<close> returns a
  boolean (nothing in it raises). It is false when an input names a transaction that is not in the
  map or an output slot that is empty, when a referenced output's address differs from the
  address of the input's public key, or when a signature does not verify. Otherwise it is
  true exactly when the sum of the referenced amounts is not less than the sum of the
  outputs, where each sum is the number the code computes: from 0, in order, every
  addition rounded to a double. For amounts that are integers, not negative, with both
  totals at most \<open>2 ^ 53\<close>, that is exactly when the referenced amounts sum to at least
  the sum of the outputs.
\<close>

theorem isValid_spec:
  assumes "inputs t \<noteq> []"
  shows "isValid E t utxos =
           (list_all (verified E utxos) (inputs t)
            \<and> \<not> jsLess (jsSum (map (refAmount utxos) (inputs t))) (jsSum (outAmounts t)))
       \<and> ((\<exists>txIn\<in>set (inputs t). utxos (txID txIn) = None) \<longrightarrow> \<not> isValid E t utxos)
       \<and> ((\<exists>txIn\<in>set (inputs t). referenced utxos txIn = None) \<longrightarrow> \<not> isValid E t utxos)
       \<and> ((\<exists>txIn\<in>set (inputs t). \<exists>prevOut. referenced utxos txIn = Some prevOut
              \<and> address prevOut \<noteq> calcAddress E (pubKey txIn)) \<longrightarrow> \<not> isValid E t utxos)
       \<and> ((\<exists>txIn\<in>set (inputs t). \<exists>prevOut. referenced utxos txIn = Some prevOut
              \<and> \<not> verifySignature E (pubKey txIn) prevOut (sig txIn)) \<longrightarrow> \<not> isValid E t utxos)
       \<and> (list_all natAmount (map (refAmount utxos) (inputs t))
            \<and> list_all natAmount (outAmounts t)
            \<and> sum_list (map intOf (map (refAmount utxos) (inputs t))) \<le> 2 ^ 53
            \<and> sum_list (map intOf (outAmounts t)) \<le> 2 ^ 53 \<longrightarrow>
          isValid E t utxos =
            (list_all (verified E utxos) (inputs t)
             \<and> sum_list (map intOf (outAmounts t))
                 \<le> sum_list (map intOf (map (refAmount utxos) (inputs t)))))"
proof -
  have bad: "\<not> isValid E t utxos" if "txIn \<in> set (inputs t)" "\<not> verified E utxos txIn" for txIn
    using that by (auto simp: isValid_eq list_all_iff)
  have "\<not> isValid E t utxos" if "txIn \<in> set (inputs t)" "utxos (txID txIn) = None" for txIn
    using that by (intro bad [of txIn]) (simp_all add: verified_def referenced_def)
  moreover have "\<not> isValid E t utxos" if "txIn \<in> set (inputs t)" "referenced utxos txIn = None" for txIn
    using that by (intro bad [of txIn]) (simp_all add: verified_def)
  moreover have "\<not> isValid E t utxos"
    if "txIn \<in> set (inputs t)" "referenced utxos txIn = Some prevOut"
       "address prevOut \<noteq> calcAddress E (pubKey txIn)" for txIn prevOut
    using that by (intro bad [of txIn]) (simp_all add: verified_def)
  moreover have "\<not> isValid E t utxos"
    if "txIn \<in> set (inputs t)" "referenced utxos txIn = Some prevOut"
       "\<not> verifySignature E (pubKey txIn) prevOut (sig txIn)" for txIn prevOut
    using that by (intro bad [of txIn]) (simp_all add: verified_def)
  moreover have "isValid E t utxos =
            (list_all (verified E utxos) (inputs t)
             \<and> sum_list (map intOf (outAmounts t))
                 \<le> sum_list (map intOf (map (refAmount utxos) (inputs t))))"
    if n: "list_all natAmount (map (refAmount utxos) (inputs t))"
      "list_all natAmount (outAmounts t)"
      and s: "sum_list (map intOf (map (refAmount utxos) (inputs t))) \<le> 2 ^ 53"
      "sum_list (map intOf (outAmounts t)) \<le> 2 ^ 53"
  proof -
    have "jsLess (jsSum (map (refAmount utxos) (inputs t))) (jsSum (outAmounts t)) =
            (rat_of_int (sum_list (map intOf (map (refAmount utxos) (inputs t))))
               < rat_of_int (sum_list (map intOf (outAmounts t))))"
      by (rule jsLess_finite [OF jsSum_exact [OF n(1) s(1)] jsSum_exact [OF n(2) s(2)]])
    then show ?thesis by (simp add: isValid_eq not_less)
  qed
  ultimately show ?thesis using isValid_eq [of E t utxos] by blast
qed

theorem isValid_spec_witness:
  "inputs txB \<noteq> []
   \<and> list_all natAmount (map (refAmount utxosB) (inputs txB))
   \<and> list_all natAmount (outAmounts txB)
   \<and> sum_list (map intOf (map (refAmount utxosB) (inputs txB))) = 42
   \<and> sum_list (map intOf (outAmounts txB)) = 30
   \<and> list_all (verified env0 utxosB) (inputs txB)
   \<and> isValid env0 txB utxosB"
proof -
  have i: "inputs txB = [inputB]" by (simp add: txB_def Transaction_def)
  have ne: "inputs txB \<noteq> []" by (simp add: i)
  have r: "referenced utxosB inputB = Some \<lparr>amount = jsInt 42, address = [104, 107]\<rparr>"
    by (simp add: referenced_def utxosB_def inputB_def cbTX_def Transaction_def)
  have v: "list_all (verified env0 utxosB) (inputs txB)"
    by (simp add: i verified_def r) (simp add: inputB_def env0_def)
  have ra: "map (refAmount utxosB) (inputs txB) = [jsInt 42]"
    by (simp add: i refAmount_def r)
  have oa: "outAmounts txB = [jsInt 20, jsInt 10]"
    by (simp add: outAmounts_def txB_def Transaction_def)
  have n1: "list_all natAmount (map (refAmount utxosB) (inputs txB))"
    by (simp add: ra natAmount_jsInt)
  have n2: "list_all natAmount (outAmounts txB)"
    by (simp add: oa natAmount_jsInt)
  have s1: "sum_list (map intOf (map (refAmount utxosB) (inputs txB))) = 42"
    by (simp add: ra intOf_jsInt)
  have s2: "sum_list (map intOf (outAmounts txB)) = 30"
    by (simp add: oa intOf_jsInt)
  have le1: "sum_list (map intOf (map (refAmount utxosB) (inputs txB))) \<le> 2 ^ 53"
    unfolding s1 by simp
  have le2: "sum_list (map intOf (outAmounts txB)) \<le> 2 ^ 53"
    unfolding s2 by simp
  from isValid_spec [OF ne, of env0 utxosB] n1 n2 le1 le2 have
    "isValid env0 txB utxosB =
       (list_all (verified env0 utxosB) (inputs txB)
        \<and> sum_list (map intOf (outAmounts txB))
            \<le> sum_list (map intOf (map (refAmount utxosB) (inputs txB))))"
    by blast
  then have "isValid env0 txB utxosB" unfolding s1 s2 using v by simp
  with ne n1 n2 s1 s2 v show ?thesis by blast
qed

text \<open>
  Claim C10, as stated, does not hold: the result is true for every sum that is not
  greater than 0. The transaction \<open>txN\<close> has no inputs and one output with the amount
  \<open>- 1\<close>; the sum of its outputs is \<open>- 1\<close>, not 0, and \<open>isValid\<close> returns true.
\<close>

theorem isValid_negative_coinbase:
  "inputs txN = []
   \<and> outAmounts txN = [jsInt (- 1)]
   \<and> jsSum (outAmounts txN) = jsInt (- 1)
   \<and> jsInt (- 1) \<noteq> jsInt 0
   \<and> isValid env0 txN Map.empty"
proof -
  have i: "inputs txN = []" by (simp add: txN_def Transaction_def)
  have oa: "outAmounts txN = [jsInt (- 1)]"
    by (simp add: outAmounts_def txN_def Transaction_def)
  have s: "jsSum (outAmounts txN) = jsInt (- 1)"
    by (simp add: oa jsSum_def jsAdd_int)
  have "isValid env0 txN Map.empty"
    by (simp add: isValid_eq i s) (simp add: jsSum_def jsLess_int)
  then show ?thesis using i oa s by (simp add: jsInt_eq)
qed

text \<open>
  Claim C10, amended. For a transaction without inputs and any UTXO map, \<open>isValid\<close>
  returns a boolean: the input sum is 0, so the result is true exactly when 0 is not less
  than the sum of the outputs as the code adds them. For a finite sum that is exactly when
  the sum is at most 0; a sum that is not a number gives true; a positive sum (a positive
  reward) gives false, not an error. With amounts that are integers, not negative, and a
  total of at most \<open>2 ^ 53\<close>, the result is true exactly when the sum is 0.
\<close>

theorem isValid_coinbase:
  assumes "inputs t = []"
  shows "isValid E t utxos = (\<not> jsLess (jsInt 0) (jsSum (outAmounts t)))
       \<and> (\<forall>s. toRat (jsSum (outAmounts t)) = Some s \<longrightarrow> isValid E t utxos = (s \<le> 0))
       \<and> (jsSum (outAmounts t) = NaN \<longrightarrow> isValid E t utxos)
       \<and> (jsLess (jsInt 0) (jsSum (outAmounts t)) \<longrightarrow> \<not> isValid E t utxos)
       \<and> (list_all natAmount (outAmounts t) \<and> sum_list (map intOf (outAmounts t)) \<le> 2 ^ 53 \<longrightarrow>
            isValid E t utxos = (sum_list (map intOf (outAmounts t)) = 0))"
proof -
  have eq: "isValid E t utxos = (\<not> jsLess (jsInt 0) (jsSum (outAmounts t)))"
    using assms by (simp add: isValid_eq jsSum_def)
  have fin: "isValid E t utxos = (s \<le> 0)" if "toRat (jsSum (outAmounts t)) = Some s" for s
    using jsLess_finite [OF toRat_jsInt [of 0] that] by (simp add: eq not_less)
  have nan: "isValid E t utxos" if "jsSum (outAmounts t) = NaN"
    using that by (simp add: eq jsInt_def)
  have ex: "isValid E t utxos = (sum_list (map intOf (outAmounts t)) = 0)"
    if n: "list_all natAmount (outAmounts t)" and s: "sum_list (map intOf (outAmounts t)) \<le> 2 ^ 53"
  proof -
    have "0 \<le> sum_list (map intOf (outAmounts t))" using n by (rule sum_intOf_nonneg)
    then show ?thesis using fin [OF jsSum_exact [OF n s]] by auto
  qed
  show ?thesis using eq fin nan ex by blast
qed

theorem isValid_coinbase_witness:
  "inputs txA = [] \<and> jsSum (outAmounts txA) = jsInt 42 \<and> jsLess (jsInt 0) (jsInt 42)
   \<and> \<not> isValid env0 txA Map.empty
   \<and> inputs txZ = [] \<and> toRat (jsSum (outAmounts txZ)) = Some 0
   \<and> isValid env0 txZ Map.empty"
proof -
  have iA: "inputs txA = []" and iZ: "inputs txZ = []"
    by (simp_all add: txA_def txZ_def Transaction_def)
  have sA: "jsSum (outAmounts txA) = jsInt 42"
    by (simp add: outAmounts_def txA_def Transaction_def jsSum_def jsAdd_int)
  have sZ: "jsSum (outAmounts txZ) = jsInt 0"
    by (simp add: outAmounts_def txZ_def Transaction_def jsSum_def jsAdd_int)
  have l: "jsLess (jsInt 0) (jsInt 42)" by (simp add: jsLess_int)
  have tZ: "toRat (jsSum (outAmounts txZ)) = Some 0" by (simp add: sZ jsInt_def)
  have "jsLess (jsInt 0) (jsSum (outAmounts txA)) \<longrightarrow> \<not> isValid env0 txA Map.empty"
    using isValid_coinbase [OF iA, of env0 Map.empty] by blast
  then have "\<not> isValid env0 txA Map.empty" using l by (simp add: sA)
  moreover have "isValid env0 txZ Map.empty = ((0::rat) \<le> 0)"
    using isValid_coinbase [OF iZ, of env0 Map.empty] tZ by blast
  then have "isValid env0 txZ Map.empty" by simp
  ultimately show ?thesis using iA iZ sA l tZ by simp
qed

subsection \<open>The id of a transaction\<close>

lemma addFee_empty: "outputs t = [] \<Longrightarrow> addFee t k = Inl TypeError"
  by (simp add: addFee_def)

lemma tx_step_id: "id' (tx_step t c) = id' t"
  by (cases c) (auto simp: addFee_def split: list.splits)

lemma tx_steps_id: "id' (foldl tx_step t calls) = id' t"
  by (induction calls arbitrary: t) (simp_all add: tx_step_id)

text \<open>
  Claim C5, as the specification states it, does not hold: \<open>addFee\<close> writes to the
  output object in slot 0, and the array can hold that object in another slot too. The
  transaction \<open>txS\<close> is built from an array with one output object, of amount 1, in both
  slots; after \<open>addFee(5)\<close> the amount in slot 1 is 6 as well.
\<close>

theorem addFee_shared_output:
  "outputs txS = [0, 0]
   \<and> outAmounts txS = [jsInt 1, jsInt 1]
   \<and> (case addFee txS (jsInt 5) of Inl e \<Rightarrow> [] | Inr t' \<Rightarrow> outAmounts t') = [jsInt 6, jsInt 6]"
  by (simp add: txS_def Transaction_def outAmounts_def addFee_def jsAdd_int)

text \<open>
  Claim C5, amended. The id is the hash of the inputs and of the contents that the
  outputs have when the constructor runs, and no sequence of calls changes it. On a
  transaction without outputs \<open>addFee(k)\<close> raises a TypeError. Otherwise it adds \<open>k\<close>,
  as numbers add, to the amount of the output object in slot 0 and changes nothing else:
  the id, the inputs, the array of outputs, the address of that object and every other
  output object stay; a slot that holds another object than slot 0 shows the output it
  showed before.
\<close>

theorem id_stable:
  "id' (Transaction E objects outs ins) = hash E ins (map objects outs)
   \<and> id' (foldl tx_step (Transaction E objects outs ins) calls) = hash E ins (map objects outs)
   \<and> (outputs t = [] \<longrightarrow> addFee t k = Inl TypeError)
   \<and> (outputs t \<noteq> [] \<longrightarrow>
        (\<exists>t'. addFee t k = Inr t' \<and> id' t' = id' t \<and> inputs t' = inputs t
           \<and> outputs t' = outputs t
           \<and> amount (objs t' (outputs t ! 0)) = jsAdd (amount (objs t (outputs t ! 0))) k
           \<and> address (objs t' (outputs t ! 0)) = address (objs t (outputs t ! 0))
           \<and> (\<forall>r. r \<noteq> outputs t ! 0 \<longrightarrow> objs t' r = objs t r)
           \<and> (\<forall>i<length (outputs t). outputs t ! i \<noteq> outputs t ! 0 \<longrightarrow>
                 objs t' (outputs t' ! i) = objs t (outputs t ! i))))"
proof -
  have c: "\<exists>t'. addFee t k = Inr t' \<and> id' t' = id' t \<and> inputs t' = inputs t
           \<and> outputs t' = outputs t
           \<and> amount (objs t' (outputs t ! 0)) = jsAdd (amount (objs t (outputs t ! 0))) k
           \<and> address (objs t' (outputs t ! 0)) = address (objs t (outputs t ! 0))
           \<and> (\<forall>r. r \<noteq> outputs t ! 0 \<longrightarrow> objs t' r = objs t r)
           \<and> (\<forall>i<length (outputs t). outputs t ! i \<noteq> outputs t ! 0 \<longrightarrow>
                 objs t' (outputs t' ! i) = objs t (outputs t ! i))"
    if "outputs t \<noteq> []"
  proof -
    from that obtain r rest where o: "outputs t = r # rest" by (cases "outputs t") auto
    have "addFee t k =
            Inr (t\<lparr>objs := (objs t)(r := (objs t r)\<lparr>amount := jsAdd (amount (objs t r)) k\<rparr>)\<rparr>)"
      by (simp add: addFee_def o)
    then show ?thesis by (simp add: o)
  qed
  have "id' (Transaction E objects outs ins) = hash E ins (map objects outs)"
    by (simp add: Transaction_def)
  then show ?thesis using c by (simp add: tx_steps_id addFee_empty)
qed

theorem id_stable_witness:
  "outputs cbTX \<noteq> []
   \<and> (\<exists>t'. addFee cbTX (jsInt 5) = Inr t' \<and> id' t' = [0, 2]
        \<and> amount (objs t' (outputs cbTX ! 0)) = jsInt 6
        \<and> objs t' 1 = objs cbTX 1)"
proof -
  have ne: "outputs cbTX \<noteq> []" by (simp add: cbTX_def Transaction_def)
  have o: "outputs cbTX ! 0 = 0" by (simp add: cbTX_def Transaction_def)
  from id_stable [of env0 "objs cbTX" "[]" "[]" "[]" cbTX "jsInt 5"] ne o obtain t' where
    "addFee cbTX (jsInt 5) = Inr t'" "id' t' = id' cbTX"
    "amount (objs t' 0) = jsAdd (amount (objs cbTX 0)) (jsInt 5)"
    "\<forall>r. r \<noteq> 0 \<longrightarrow> objs t' r = objs cbTX r"
    by auto
  moreover have "id' cbTX = [0, 2]" "amount (objs cbTX 0) = jsInt 1"
    by (simp_all add: cbTX_def Transaction_def env0_def)
  ultimately have "\<exists>t'. addFee cbTX (jsInt 5) = Inr t' \<and> id' t' = [0, 2]
        \<and> amount (objs t' (outputs cbTX ! 0)) = jsInt 6
        \<and> objs t' 1 = objs cbTX 1"
    using o by (auto simp: jsAdd_int)
  with ne show ?thesis by blast
qed

section \<open>Properties of the miner\<close>

subsection \<open>Eligibility\<close>

lemma countLoop_prefix:
  "length string1 = length string2 \<Longrightarrow>
   countLoop string1 string2 i n =
     n + int (length (longest_common_prefix (drop i string1) (drop i string2)))"
proof (induction string1 string2 i n rule: countLoop.induct)
  case (1 string1 string2 i n)
  show ?case
  proof (cases "i < length string1")
    case False
    then show ?thesis by (simp add: countLoop.simps [of string1 string2 i n])
  next
    case True
    then have d1: "drop i string1 = string1 ! i # drop (Suc i) string1"
      by (simp add: Cons_nth_drop_Suc)
    from True "1.prems" have d2: "drop i string2 = string2 ! i # drop (Suc i) string2"
      by (simp add: Cons_nth_drop_Suc)
    show ?thesis
    proof (cases "string1 ! i = string2 ! i")
      case eq: True
      with True "1.IH" "1.prems" show ?thesis
        by (simp add: countLoop.simps [of string1 string2 i n] d1 d2)
    next
      case False
      with True show ?thesis
        by (simp add: countLoop.simps [of string1 string2 i n] d1 d2)
    qed
  qed
qed

lemma countMatchingBits_eq:
  "countMatchingBits string1 string2 =
     (if length string1 \<noteq> length string2 then Inl StringLengthMismatch
      else Inr (int (matchingPrefixBits string1 string2)))"
  by (simp add: countMatchingBits_def countLoop_prefix matchingPrefixBits_def)

lemma binValue_snoc: "binValue (ds @ [d]) = 2 * binValue ds + (if d = CHR ''1'' then 1 else 0)"
  by (simp add: binValue_def)

lemma toString2_value: "binValue (toString2 n) = n"
proof (induction n rule: toString2.induct)
  case (1 n)
  show ?case
  proof (cases "n < 2")
    case True
    then show ?thesis by (auto simp: toString2.simps [of n] binValue_def)
  next
    case False
    with "1.IH" have "binValue (toString2 (n div 2)) = n div 2" by simp
    with False show ?thesis
      by (simp add: toString2.simps [of n] binValue_snoc) presburger
  qed
qed

lemma toString2_hd: "toString2 n \<noteq> [] \<and> (0 < n \<longrightarrow> hd (toString2 n) = CHR ''1'')"
proof (induction n rule: toString2.induct)
  case (1 n)
  show ?case
  proof (cases "n < 2")
    case True
    then show ?thesis by (auto simp: toString2.simps [of n])
  next
    case False
    with "1.IH" have "toString2 (n div 2) \<noteq> []" "hd (toString2 (n div 2)) = CHR ''1''"
      by auto
    with False show ?thesis
      by (simp add: toString2.simps [of n])
  qed
qed

lemma toString2_digits: "set (toString2 n) \<subseteq> {CHR ''0'', CHR ''1''}"
proof (induction n rule: toString2.induct)
  case (1 n)
  show ?case
  proof (cases "n < 2")
    case True
    then show ?thesis by (auto simp: toString2.simps [of n])
  next
    case False
    with "1.IH" have "set (toString2 (n div 2)) \<subseteq> {CHR ''0'', CHR ''1''}" by simp
    with False show ?thesis
      by (auto simp: toString2.simps [of n])
  qed
qed


lemma toString2_zero: "toString2 0 = ''0''"
  by (simp add: toString2.simps [of 0])

text \<open>What the code computes: for a miner whose wallet has an eligibility key,
  \<open>isEligibileToMint\<close> raises StringLengthMismatch exactly when the two binarized strings
  differ in length, and otherwise holds exactly when the number of leading equal characters
  of the two is at least the target. The binarized string of \<open>s\<close> is the first 16
  characters of the concatenation, over the code units of \<open>s\<close>, of the binary digits of
  the unit without leading zeros (\<open>"0"\<close> for the unit 0).\<close>

lemma isEligibileToMint_eq:
  assumes "getEligibilityAddress (wallet miner) = Some key"
  shows "isEligibileToMint miner b target =
          (if length (text2Binary (prevBlockHash b)) \<noteq> length (text2Binary key)
           then Inl StringLengthMismatch
           else Inr (target \<le> int (matchingPrefixBits (text2Binary (prevBlockHash b))
                                     (text2Binary key))))"
  using assms by (simp add: isEligibileToMint_def Let_def countMatchingBits_eq)

text \<open>The digits of every code unit other than 0 start with \<open>1\<close>, so the binarized
  strings of two strings that start with such units agree on their first character,
  whatever the units are.\<close>

lemma text2Binary_hd:
  assumes "s \<noteq> []" and "hd s \<noteq> 0"
  shows "text2Binary s \<noteq> [] \<and> hd (text2Binary s) = CHR ''1''"
proof -
  from assms obtain c cs where s: "s = c # cs" and c: "c \<noteq> 0" by (cases s) auto
  have pos: "0 < unat c" using c by (simp add: unat_gt_0)
  have d: "toString2 (unat c) \<noteq> []" "hd (toString2 (unat c)) = CHR ''1''"
    using toString2_hd [of "unat c"] pos by simp_all
  then obtain x xs where x: "toString2 (unat c) = x # xs" by (cases "toString2 (unat c)") auto
  with d(2) have "x = CHR ''1''" by simp
  then show ?thesis by (simp add: text2Binary_def s x)
qed

text \<open>
  Claim C7. The claim: a miner is eligible exactly when the 8-bit binary representations
  of the parent hash and of its key, cut to 16 bits, share at least \<open>target\<close> leading
  bits. The code: \<open>text2Binary\<close> joins the digits that \<open>toString(2)\<close> gives for every
  code unit, which are not padded to eight, so the strings it compares are not the bits of
  the two texts, and the comment on \<open>MINT_ELEGIBILITY_DIFFICULTY\<close> ("2 bits matching,
  1/2^2 chance of eligible") does not describe it. For the parent hash \<open>"aaa"\<close> and the
  key \<open>"0aa"\<close> the strings of the code agree on their first 8 characters, so the miner
  is eligible for the target 2; the 16 leading bits of the two texts agree on the first
  bit only.
\<close>

theorem isEligibileToMint_padded_differs:
  "getEligibilityAddress (wallet minerK) = Some (js ''0aa'')
   \<and> prevBlockHash blockP = js ''aaa''
   \<and> text2Binary (js ''aaa'') = ''1100001110000111''
   \<and> text2Binary (js ''0aa'') = ''1100001100001110''
   \<and> isEligibileToMint minerK blockP MINT_ELEGIBILITY_DIFFICULTY = Inr True
   \<and> bin16 (js ''aaa'') = ''0110000101100001''
   \<and> bin16 (js ''0aa'') = ''0011000001100001''
   \<and> matchingPrefixBits (bin16 (js ''aaa'')) (bin16 (js ''0aa'')) = 1
   \<and> \<not> isEligibleToMint_spec (js ''0aa'') blockP MINT_ELEGIBILITY_DIFFICULTY"
proof -
  have k: "js ''0aa'' = [48, 97, 97]" and p: "js ''aaa'' = [97, 97, 97]"
    by (simp_all add: js_def)
  have "getEligibilityAddress (wallet minerK) = Some (js ''0aa'')"
    by (simp add: getEligibilityAddress_def minerK_def k)
  moreover have "prevBlockHash blockP = js ''aaa''" by (simp add: blockP_def p)
  moreover have "text2Binary (js ''aaa'') = ''1100001110000111''" by code_simp
  moreover have "text2Binary (js ''0aa'') = ''1100001100001110''" by code_simp
  moreover have "isEligibileToMint minerK blockP MINT_ELEGIBILITY_DIFFICULTY = Inr True"
    by code_simp
  moreover have "bin16 (js ''aaa'') = ''0110000101100001''" by code_simp
  moreover have "bin16 (js ''0aa'') = ''0011000001100001''" by code_simp
  moreover have "matchingPrefixBits (bin16 (js ''aaa'')) (bin16 (js ''0aa'')) = 1" by code_simp
  moreover have "\<not> isEligibleToMint_spec (js ''0aa'') blockP MINT_ELEGIBILITY_DIFFICULTY"
    by code_simp
  ultimately show ?thesis by blast
qed

subsection \<open>Validation of a received block\<close>

lemma receiveBlock_rejected:
  "isValidBlock E (dateNow x) (deserialize E s) sender \<noteq> Inr True \<Longrightarrow>
   snd (receiveBlock E x this s sender) = this"
  by (auto simp: receiveBlock_def Let_def split: sum.splits bool.splits)

text \<open>
  Claim C8, as the specification states it, does not hold: the receiver adds one second to
  the elapsed time before it counts the intervals. One second after the timestamp the
  target of the code is 1, and a block of a sender whose key matches one bit is accepted,
  though the sender is not eligible for the target 2 that the claim derives from the
  elapsed time.
\<close>

theorem isValidBlock_grace_second:
  "isValidBlock env0 1000 blockP (Some minerL) = Inr True
   \<and> isEligibileToMint minerL blockP (specTarget 1000 blockP) = Inr False"
proof -
  have "isValidBlock env0 1000 blockP (Some minerL) = Inr True" by code_simp
  moreover have "isEligibileToMint minerL blockP (specTarget 1000 blockP) = Inr False" by code_simp
  ultimately show ?thesis by blast
qed

text \<open>
  Claim C8, amended. For a block received from a sender, \<open>isValidBlock\<close> returns true
  exactly when the sender is eligible for the target
  \<open>base - floor((currentTime - b.timestamp + 1000) / TIME_UNTIL_ELIGIBILITY_DECREASE)\<close>
  and \<open>verifyProof\<close> holds; when the eligibility check is false, or it is true and
  \<open>verifyProof\<close> fails, \<open>isValidBlock\<close> returns false; then \<open>receiveBlock\<close> returns
  false, and whenever the block is not accepted the receiving miner is as before.
\<close>

theorem isValidBlock_spec:
  "(isValidBlock E now b (Some sender) = Inr True \<longleftrightarrow>
      isEligibileToMint sender b
        (MINT_ELEGIBILITY_DIFFICULTY - (now - timestamp b + 1000) div TIME_UNTIL_ELIGIBILITY_DECREASE)
        = Inr True
      \<and> verifyProof E b)
   \<and> (isEligibileToMint sender b
        (MINT_ELEGIBILITY_DIFFICULTY - (now - timestamp b + 1000) div TIME_UNTIL_ELIGIBILITY_DECREASE)
        = Inr False \<longrightarrow>
      isValidBlock E now b (Some sender) = Inr False)
   \<and> (isEligibileToMint sender b
        (MINT_ELEGIBILITY_DIFFICULTY - (now - timestamp b + 1000) div TIME_UNTIL_ELIGIBILITY_DECREASE)
        = Inr True \<and> \<not> verifyProof E b \<longrightarrow>
      isValidBlock E now b (Some sender) = Inr False)
   \<and> (isValidBlock E (dateNow x) (deserialize E s) (Some sender) = Inr False \<longrightarrow>
      receiveBlock E x this s (Some sender) = (Inr (Some False), this))
   \<and> (isValidBlock E (dateNow x) (deserialize E s) (Some sender) \<noteq> Inr True \<longrightarrow>
      snd (receiveBlock E x this s (Some sender)) = this)"
proof -
  let ?e = "isEligibileToMint sender b
        (MINT_ELEGIBILITY_DIFFICULTY - (now - timestamp b + 1000) div TIME_UNTIL_ELIGIBILITY_DECREASE)"
  have v: "isValidBlock E now b (Some sender) =
             (case ?e of Inl e \<Rightarrow> Inl e | Inr ok \<Rightarrow> Inr (ok \<and> verifyProof E b))"
    by (simp add: isValidBlock_def Let_def split: sum.splits bool.splits)
  have 1: "isValidBlock E now b (Some sender) = Inr True \<longleftrightarrow> ?e = Inr True \<and> verifyProof E b"
    by (auto simp: v split: sum.splits)
  have 2: "?e = Inr False \<longrightarrow> isValidBlock E now b (Some sender) = Inr False"
    by (simp add: v)
  have 3: "?e = Inr True \<and> \<not> verifyProof E b \<longrightarrow> isValidBlock E now b (Some sender) = Inr False"
    by (simp add: v)
  have 4: "isValidBlock E (dateNow x) (deserialize E s) (Some sender) = Inr False \<longrightarrow>
      receiveBlock E x this s (Some sender) = (Inr (Some False), this)"
    by (simp add: receiveBlock_def Let_def)
  have 5: "isValidBlock E (dateNow x) (deserialize E s) (Some sender) \<noteq> Inr True \<longrightarrow>
      snd (receiveBlock E x this s (Some sender)) = this"
    by (simp add: receiveBlock_rejected)
  show ?thesis using 1 2 3 4 5 by blast
qed

theorem isValidBlock_spec_witness:
  "isEligibileToMint minerL blockP
     (MINT_ELEGIBILITY_DIFFICULTY - (1000 - timestamp blockP + 1000) div TIME_UNTIL_ELIGIBILITY_DECREASE)
     = Inr True
   \<and> verifyProof env0 blockP
   \<and> isValidBlock env0 1000 blockP (Some minerL) = Inr True
   \<and> isValidBlock env0 (dateNow (externX\<lparr>dateNow := 0\<rparr>)) (deserialize env0 [97, 97, 97]) (Some minerL)
       = Inr False
   \<and> receiveBlock env0 (externX\<lparr>dateNow := 0\<rparr>) minerK [97, 97, 97] (Some minerL)
       = (Inr (Some False), minerK)"
proof -
  have e: "isEligibileToMint minerL blockP
     (MINT_ELEGIBILITY_DIFFICULTY - (1000 - timestamp blockP + 1000) div TIME_UNTIL_ELIGIBILITY_DECREASE)
     = Inr True" by code_simp
  have p: "verifyProof env0 blockP" by (simp add: env0_def blockP_def)
  have r: "isValidBlock env0 (dateNow (externX\<lparr>dateNow := 0\<rparr>)) (deserialize env0 [97, 97, 97]) (Some minerL)
       = Inr False" by code_simp
  show ?thesis
    using e p r
      isValidBlock_spec [of env0 1000 blockP minerL "externX\<lparr>dateNow := 0\<rparr>" "[97, 97, 97]" minerK]
    by blast
qed

subsection \<open>Cutting over to a received block\<close>

lemma startNewSearch_chain:
  "chainLength (currentBlock (snd (startNewSearch E x reuse this))) =
     (if shouldStartNewBlock this then chainLength (currentBlock this) + 1
      else chainLength (currentBlock this))"
  by (simp add: startNewSearch_def Let_def Block_def
           split: prod.splits option.splits sum.splits bool.splits)

lemma storeBlock_current: "currentBlock (storeBlock E this b) = currentBlock this"
  by (simp add: storeBlock_def)

lemma storeBlock_oid: "oid (storeBlock E this b) = oid this"
  by (simp add: storeBlock_def)

lemma receiveBlock_accepted:
  assumes "isValidBlock E (dateNow x) (deserialize E s) sender = Inr True"
  shows "snd (receiveBlock E x this s sender) =
           (if chainLength (currentBlock this) \<le> chainLength (deserialize E s)
               \<and> (case sender of None \<Rightarrow> True | Some m \<Rightarrow> oid this \<noteq> oid m)
            then snd (startNewSearch E x True (cutOver (storeBlock E this (deserialize E s)) (deserialize E s)))
            else storeBlock E this (deserialize E s))"
  using assms
  by (auto simp: receiveBlock_def Let_def storeBlock_current storeBlock_oid
           split: prod.splits option.splits)

lemma receiveBlock_chain:
  "chainLength (currentBlock this) \<le> chainLength (currentBlock (snd (receiveBlock E x this s sender)))"
proof (cases "isValidBlock E (dateNow x) (deserialize E s) sender = Inr True")
  case False
  then show ?thesis by (simp add: receiveBlock_rejected)
next
  case True
  show ?thesis
    by (simp add: receiveBlock_accepted [OF True] startNewSearch_chain storeBlock_current cutOver_def)
qed

lemma deliver_chain:
  "chainLength (currentBlock this) \<le> chainLength (currentBlock (deliver E this d))"
  by (cases d) (simp add: deliver_def receiveBlock_chain)

lemma deliveries_chain:
  "chainLength (currentBlock this) \<le> chainLength (currentBlock (foldl (deliver E) this ds))"
proof (induction ds arbitrary: this)
  case Nil
  then show ?case by simp
next
  case (Cons d ds)
  have "chainLength (currentBlock this) \<le> chainLength (currentBlock (deliver E this d))"
    by (rule deliver_chain)
  also have "\<dots> \<le> chainLength (currentBlock (foldl (deliver E) (deliver E this d) ds))"
    by (rule Cons.IH)
  finally show ?case by simp
qed

text \<open>
  Claim C6. For a delivered block \<open>b\<close> that passes validation: when
  \<open>b.chainLength \<ge> currentBlock.chainLength\<close> and the sender is not the receiver, the
  receiver sets \<open>currentBlock\<close> to \<open>b\<close> and starts a new search from there (which
  puts a new block on top of \<open>b\<close>); otherwise \<open>currentBlock\<close> stays. In both cases, and
  along every run of deliveries, the chain length of \<open>currentBlock\<close> never decreases.
\<close>

theorem receiveBlock_cutover:
  assumes "isValidBlock E (dateNow x) (deserialize E s) sender = Inr True"
  shows "(chainLength (currentBlock this) \<le> chainLength (deserialize E s)
            \<and> (case sender of None \<Rightarrow> True | Some m \<Rightarrow> oid this \<noteq> oid m) \<longrightarrow>
          snd (receiveBlock E x this s sender) =
            snd (startNewSearch E x True
                   (cutOver (storeBlock E this (deserialize E s)) (deserialize E s)))
          \<and> currentBlock (cutOver (storeBlock E this (deserialize E s)) (deserialize E s))
              = deserialize E s
          \<and> chainLength (currentBlock (snd (receiveBlock E x this s sender)))
              = chainLength (deserialize E s) + 1)
       \<and> (\<not> (chainLength (currentBlock this) \<le> chainLength (deserialize E s)
               \<and> (case sender of None \<Rightarrow> True | Some m \<Rightarrow> oid this \<noteq> oid m)) \<longrightarrow>
          snd (receiveBlock E x this s sender) = storeBlock E this (deserialize E s)
          \<and> currentBlock (snd (receiveBlock E x this s sender)) = currentBlock this)
       \<and> chainLength (currentBlock this)
            \<le> chainLength (currentBlock (snd (receiveBlock E x this s sender)))
       \<and> (\<forall>ds ds'. chainLength (currentBlock (foldl (deliver E) this ds))
            \<le> chainLength (currentBlock (foldl (deliver E) this (ds @ ds'))))"
proof -
  let ?b = "deserialize E s"
  let ?c = "chainLength (currentBlock this) \<le> chainLength ?b
            \<and> (case sender of None \<Rightarrow> True | Some m \<Rightarrow> oid this \<noteq> oid m)"
  note eq = receiveBlock_accepted [OF assms, of this]
  have yes: "snd (receiveBlock E x this s sender) =
          snd (startNewSearch E x True (cutOver (storeBlock E this ?b) ?b))
        \<and> currentBlock (cutOver (storeBlock E this ?b) ?b) = ?b
        \<and> chainLength (currentBlock (snd (receiveBlock E x this s sender))) = chainLength ?b + 1"
    if c: ?c
  proof -
    have r: "snd (receiveBlock E x this s sender) =
               snd (startNewSearch E x True (cutOver (storeBlock E this ?b) ?b))"
      using eq [unfolded if_P [OF c]] .
    show ?thesis by (simp add: r startNewSearch_chain cutOver_def)
  qed
  have no: "snd (receiveBlock E x this s sender) = storeBlock E this ?b
        \<and> currentBlock (snd (receiveBlock E x this s sender)) = currentBlock this"
    if c: "\<not> ?c"
  proof -
    have r: "snd (receiveBlock E x this s sender) = storeBlock E this ?b"
      using eq [unfolded if_not_P [OF c]] .
    show ?thesis by (simp add: r storeBlock_current)
  qed
  have run: "chainLength (currentBlock (foldl (deliver E) this ds))
            \<le> chainLength (currentBlock (foldl (deliver E) this (ds @ ds')))" for ds ds'
    by (simp add: deliveries_chain)
  show ?thesis using yes no run receiveBlock_chain [of this E x s sender] by blast
qed

theorem receiveBlock_cutover_witness:
  "isValidBlock env0 (dateNow externX) (deserialize env0 [97, 97, 97]) (Some minerL) = Inr True
   \<and> chainLength (currentBlock minerK) \<le> chainLength (deserialize env0 [97, 97, 97])
   \<and> oid minerK \<noteq> oid minerL
   \<and> chainLength (currentBlock (snd (receiveBlock env0 externX minerK [97, 97, 97] (Some minerL))))
       = 2"
proof -
  have v: "isValidBlock env0 (dateNow externX) (deserialize env0 [97, 97, 97]) (Some minerL)
             = Inr True"
    by code_simp
  have c: "chainLength (currentBlock minerK) \<le> chainLength (deserialize env0 [97, 97, 97])"
    "oid minerK \<noteq> oid minerL" "chainLength (deserialize env0 [97, 97, 97]) = 1"
    by (simp_all add: minerK_def minerL_def env0_def blockP_def)
  have cond: "chainLength (currentBlock minerK) \<le> chainLength (deserialize env0 [97, 97, 97])
              \<and> (case Some minerL of None \<Rightarrow> True | Some m \<Rightarrow> oid minerK \<noteq> oid m)"
    using c by simp
  from receiveBlock_cutover [OF v, of minerK] cond have
    "chainLength (currentBlock (snd (receiveBlock env0 externX minerK [97, 97, 97] (Some minerL))))
       = chainLength (deserialize env0 [97, 97, 97]) + 1"
    by blast
  then show ?thesis using v c by simp
qed

end
